theory Spec2Isabelle
  imports Complex_Main
begin

section \<open>Values, records and formatting\<close>

text \<open>
  The generator builds an object-centric event log from traces of activity labels.
  Its records are Python dictionaries with fixed keys; they are written here as records,
  one field per key.  Attribute values are strings, integers, rendered timestamps or
  \<open>None\<close>.

  A \<open>datetime\<close> is an integer count of microseconds (the resolution of Python's
  \<open>datetime\<close>), a \<open>timedelta\<close> likewise.  \<open>iso\<close> renders a datetime with
  \<open>strftime("%Y-%m-%dT%H:%M:%SZ")\<close>, which drops the microseconds; the calendar
  rendering of the whole seconds is order preserving and one-to-one (for four-digit
  years) and is not spelled out: a rendered timestamp is kept as its count of whole
  seconds.  Floating-point numbers are idealised as rationals.
\<close>

type_synonym isotime = int

datatype pyval = VNone | VInt int | VStr string | VTime isotime

datatype error = ValueError string | KeyError string

datatype json = JNull | JBool bool | JInt int | JStr string
  | JList "json list" | JObj "(string \<times> json) list"

record event_attribute =
  ea_name :: string
  ea_value :: pyval

record relationship =
  objectId :: string
  qualifier :: string

record event =
  e_id :: string
  e_type :: string
  e_time :: isotime
  e_attributes :: "event_attribute list"
  e_relationships :: "relationship list"

record object_attribute =
  a_name :: string
  a_time :: isotime
  a_value :: pyval

record obj =
  o_id :: string
  o_type :: string
  o_attributes :: "object_attribute list"

record object_relationship =
  r_id :: string
  r_type :: string
  r_time :: isotime
  sourceObject :: string
  targetObject :: string
  r_attributes :: "pyval list"

text \<open>The per-trace context dictionary built by \<open>_init_trace_objects\<close>.\<close>

record ctx =
  trace_index :: nat
  start_time :: int
  patient_id :: string
  visit_id :: string
  diagnosis_id :: "string option"
  plan_id :: "string option"
  medication_ids :: "string list"
  test_ids :: "string list"
  med_cycles :: nat

definition iso :: "int \<Rightarrow> isotime" where
  "iso dt = dt div 1000000"

text \<open>\<open>str(n)\<close> for a non-negative integer, \<open>str.zfill\<close>, and the format \<open>{:0wd}\<close>.\<close>

fun str_nat :: "nat \<Rightarrow> string" where
  "str_nat n = (if n < 10 then [char_of (48 + n)]
                else str_nat (n div 10) @ [char_of (48 + n mod 10)])"

declare str_nat.simps [simp del]

definition zfill :: "nat \<Rightarrow> string \<Rightarrow> string" where
  "zfill w s = replicate (w - length s) (CHR ''0'') @ s"

definition fmt_d :: "nat \<Rightarrow> nat \<Rightarrow> string" where
  "fmt_d w n = zfill w (str_nat n)"

text \<open>
  \<open>timedelta(minutes=m)\<close> for a float \<open>m\<close> rounds to the nearest microsecond, ties to
  even; \<open>timedelta(hours=h)\<close> for an integer is exact.
\<close>

definition round_half_even :: "rat \<Rightarrow> int" where
  "round_half_even x =
     (let f = \<lfloor>x\<rfloor>; r = x - of_int f
      in if r < 1 / 2 then f else if 1 / 2 < r then f + 1
         else if even f then f else f + 1)"

definition timedelta_minutes :: "rat \<Rightarrow> int" where
  "timedelta_minutes m = round_half_even (m * 60000000)"

definition timedelta_hours :: "int \<Rightarrow> int" where
  "timedelta_hours h = h * 3600000000"

section \<open>Schema declarations\<close>

definition DEFAULT_EVENT_TYPES :: json where
  "DEFAULT_EVENT_TYPES = JList [
      JObj [(''name'', JStr ''OutpatientRegistration''),
        (''attributes'', JList [
          JObj [(''name'', JStr ''ReceptionDesk''), (''type'', JStr ''string'')]])],
      JObj [(''name'', JStr ''InitialVisit''),
        (''attributes'', JList [
          JObj [(''name'', JStr ''Department''), (''type'', JStr ''string'')],
          JObj [(''name'', JStr ''AttendingPhysician''), (''type'', JStr ''string'')]])],
      JObj [(''name'', JStr ''ImagingTest''),
        (''attributes'', JList [
          JObj [(''name'', JStr ''TestType''), (''type'', JStr ''string'')]])],
      JObj [(''name'', JStr ''LabTest''),
        (''attributes'', JList [
          JObj [(''name'', JStr ''TestType''), (''type'', JStr ''string'')]])],
      JObj [(''name'', JStr ''FollowUpVisit''),
        (''attributes'', JList [
          JObj [(''name'', JStr ''Assessment''), (''type'', JStr ''string'')]])],
      JObj [(''name'', JStr ''JointConsult''),
        (''attributes'', JList [
          JObj [(''name'', JStr ''CareTeam''), (''type'', JStr ''string'')]])],
      JObj [(''name'', JStr ''MedicationTreatment''),
        (''attributes'', JList [
          JObj [(''name'', JStr ''CycleNumber''), (''type'', JStr ''integer'')]])],
      JObj [(''name'', JStr ''Payment''),
        (''attributes'', JList [
          JObj [(''name'', JStr ''PaymentMethod''), (''type'', JStr ''string'')],
          JObj [(''name'', JStr ''PaymentAmount''), (''type'', JStr ''integer'')]])],
      JObj [(''name'', JStr ''Discharge''), (''attributes'', JList [])]]"

definition DEFAULT_OBJECT_TYPES :: json where
  "DEFAULT_OBJECT_TYPES = JList [
      JObj [(''name'', JStr ''Patient''),
        (''attributes'', JList [
          JObj [(''name'', JStr ''patient_id''),
            (''type'', JStr ''id''),
            (''format'', JStr ''P-{:04d}'')],
          JObj [(''name'', JStr ''sex''),
            (''type'', JStr ''string''),
            (''enum'', JList [JStr ''M'', JStr ''F''])],
          JObj [(''name'', JStr ''age''),
            (''type'', JStr ''integer''),
            (''semantics'', JStr ''continuous''),
            (''range'', JObj [(''min'', JInt 0), (''max'', JInt 120)])],
          JObj [(''name'', JStr ''allergies''),
            (''type'', JStr ''string''),
            (''example'', JStr ''penicillin'')],
          JObj [(''name'', JStr ''contradindications''),
            (''type'', JStr ''string''),
            (''example'', JStr ''contrast'')],
          JObj [(''name'', JStr ''status''),
            (''type'', JStr ''string''),
            (''enum'', JList [JStr ''Outpatient'', JStr ''Inpatient'', JStr ''Discharged''])],
          JObj [(''name'', JStr ''condition''),
            (''type'', JStr ''string''),
            (''enum'', JList [JStr ''Severe'', JStr ''Critical'', JStr ''Stable''])]])],
      JObj [(''name'', JStr ''Test''),
        (''attributes'', JList [
          JObj [(''name'', JStr ''test_id''),
            (''type'', JStr ''id''),
            (''format'', JStr ''T-{:04d}-{}'')],
          JObj [(''name'', JStr ''patient_id''),
            (''type'', JStr ''id''),
            (''format'', JStr ''P-{:04d}'')],
          JObj [(''name'', JStr ''modality''),
            (''type'', JStr ''string''),
            (''enum'', JList [JStr ''CT'', JStr ''MRI'', JStr ''PET'', JStr ''Blood'', JStr ''Pathology''])],
          JObj [(''name'', JStr ''perform_time''),
            (''type'', JStr ''time''),
            (''format'', JStr ''%Y-%m-%dT%H:%M:%SZ''),
            (''timezone'', JStr ''UTC'')],
          JObj [(''name'', JStr ''result_state''),
            (''type'', JStr ''string''),
            (''enum'', JList [JStr ''Unreviewed'', JStr ''Reviewed''])],
          JObj [(''name'', JStr ''findings''),
            (''type'', JStr ''string''),
            (''example'', JStr ''Suspicious for Cancer'')]])],
      JObj [(''name'', JStr ''Encounter''),
        (''attributes'', JList [
          JObj [(''name'', JStr ''enc_id''),
            (''type'', JStr ''id''),
            (''format'', JStr ''E-{:04d}'')],
          JObj [(''name'', JStr ''patient_id''),
            (''type'', JStr ''id''),
            (''format'', JStr ''P-{:04d}'')],
          JObj [(''name'', JStr ''type''),
            (''type'', JStr ''string''),
            (''enum'', JList [JStr ''Outpatient'', JStr ''Inpatient'', JStr ''Emergency''])],
          JObj [(''name'', JStr ''dept''),
            (''type'', JStr ''string''),
            (''example'', JStr ''Internal Medicine'')],
          JObj [(''name'', JStr ''start_time''),
            (''type'', JStr ''time''),
            (''format'', JStr ''%Y-%m-%dT%H:%M:%SZ''),
            (''timezone'', JStr ''UTC'')],
          JObj [(''name'', JStr ''end_time''),
            (''type'', JStr ''time''),
            (''format'', JStr ''%Y-%m-%dT%H:%M:%SZ''),
            (''timezone'', JStr ''UTC''),
            (''optional'', JBool True)],
          JObj [(''name'', JStr ''status''),
            (''type'', JStr ''string''),
            (''enum'', JList [JStr ''open'', JStr ''closed''])],
          JObj [(''name'', JStr ''reason''),
            (''type'', JStr ''string''),
            (''optional'', JBool True),
            (''example'', JStr ''AbdominalPain'')],
          JObj [(''name'', JStr ''attending''),
            (''type'', JStr ''string''),
            (''enum'', JList [JStr ''Dr. Kim'', JStr ''Dr. Cha'', JStr ''Dr.Jung''])],
          JObj [(''name'', JStr ''billing_status''),
            (''type'', JStr ''string''),
            (''enum'', JList [JStr ''unpaid'', JStr ''partial'', JStr ''paid''])],
          JObj [(''name'', JStr ''billing_amount''),
            (''type'', JStr ''integer''),
            (''semantics'', JStr ''continuous''),
            (''unit'', JStr ''KRW''),
            (''range'', JObj [(''min'', JInt 0), (''max'', JInt 10000000)])],
          JObj [(''name'', JStr ''payment_method''),
            (''type'', JStr ''string''),
            (''enum'', JList [JStr ''card'', JStr ''cash'', JStr ''transfer'']),
            (''optional'', JBool True)],
          JObj [(''name'', JStr ''billing_time''),
            (''type'', JStr ''time''),
            (''format'', JStr ''%Y-%m-%dT%H:%M:%SZ''),
            (''timezone'', JStr ''UTC''),
            (''optional'', JBool True)]])],
      JObj [(''name'', JStr ''Diagnosis''),
        (''attributes'', JList [
          JObj [(''name'', JStr ''dx_id''),
            (''type'', JStr ''id''),
            (''format'', JStr ''DX-{:04d}'')],
          JObj [(''name'', JStr ''patient_id''),
            (''type'', JStr ''id''),
            (''format'', JStr ''P-{:04d}'')],
          JObj [(''name'', JStr ''primary_site''),
            (''type'', JStr ''string''),
            (''example'', JStr ''Lung'')],
          JObj [(''name'', JStr ''stage''),
            (''type'', JStr ''string''),
            (''enum'', JList [JStr ''I'', JStr ''II'', JStr ''III'', JStr ''IV''])],
          JObj [(''name'', JStr ''confirm_time''),
            (''type'', JStr ''time''),
            (''format'', JStr ''%Y-%m-%dT%H:%M:%SZ''),
            (''timezone'', JStr ''UTC'')]])],
      JObj [(''name'', JStr ''TreatmentPlan''),
        (''attributes'', JList [
          JObj [(''name'', JStr ''plan_id''),
            (''type'', JStr ''id''),
            (''format'', JStr ''PLAN-{:04d}'')],
          JObj [(''name'', JStr ''patient_id''),
            (''type'', JStr ''id''),
            (''format'', JStr ''P-{:04d}'')],
          JObj [(''name'', JStr ''dx_id''),
            (''type'', JStr ''id''),
            (''format'', JStr ''DX-{:04d}'')],
          JObj [(''name'', JStr ''intent''),
            (''type'', JStr ''string''),
            (''enum'', JList [JStr ''curative'', JStr ''palliative''])],
          JObj [(''name'', JStr ''primary_modality''),
            (''type'', JStr ''string''),
            (''example'', JStr ''medication'')],
          JObj [(''name'', JStr ''regimen''),
            (''type'', JStr ''string''),
            (''example'', JStr ''FOLFOX'')],
          JObj [(''name'', JStr ''status''),
            (''type'', JStr ''string''),
            (''enum'', JList [JStr ''Planned'', JStr ''Proceed'', JStr ''Complete''])]])],
      JObj [(''name'', JStr ''Dose''),
        (''attributes'', JList [
          JObj [(''name'', JStr ''admin_id''),
            (''type'', JStr ''id''),
            (''format'', JStr ''D-{:04d}-{}'')],
          JObj [(''name'', JStr ''patient_id''),
            (''type'', JStr ''id''),
            (''format'', JStr ''P-{:04d}'')],
          JObj [(''name'', JStr ''plan_id''),
            (''type'', JStr ''id''),
            (''format'', JStr ''PLAN-{:04d}'')],
          JObj [(''name'', JStr ''drug_name''),
            (''type'', JStr ''string''),
            (''example'', JStr ''pembrolizumab'')],
          JObj [(''name'', JStr ''amount''),
            (''type'', JStr ''integer''),
            (''semantics'', JStr ''continuous''),
            (''unit'', JStr ''mg''),
            (''range'', JObj [(''min'', JInt 0), (''max'', JInt 2000)])],
          JObj [(''name'', JStr ''route''),
            (''type'', JStr ''string''),
            (''enum'', JList [JStr ''IV'', JStr ''PO''])],
          JObj [(''name'', JStr ''given_time''),
            (''type'', JStr ''time''),
            (''format'', JStr ''%Y-%m-%dT%H:%M:%SZ''),
            (''timezone'', JStr ''UTC'')],
          JObj [(''name'', JStr ''adverse_event''),
            (''type'', JStr ''string''),
            (''example'', JStr ''None'')]])]]"

definition DEFAULT_O2O_TYPES :: json where
  "DEFAULT_O2O_TYPES = JList [
      JObj [(''name'', JStr ''Encounter-Patient''),
        (''sourceType'', JStr ''Encounter''),
        (''targetType'', JStr ''Patient''),
        (''attributes'', JList [])],
      JObj [(''name'', JStr ''TreatmentPlan-Dose''),
        (''sourceType'', JStr ''TreatmentPlan''),
        (''targetType'', JStr ''Dose''),
        (''attributes'', JList [])]]"

section \<open>The builder\<close>

text \<open>
  The fields of the \<open>OCELBuilder\<close> dataclass.  A counter made by \<open>itertools.count(1)\<close>
  is the number it returns next.  The two last fields are the states of the process-wide
  generators of \<open>random\<close> and \<open>numpy.random\<close>, which the methods draw from; neither
  library belongs to the program, so a generator is the sequence of its future raw draws
  (any natural number for \<open>random\<close>, any standard normal deviate for \<open>numpy\<close>).
\<close>

record builder =
  event_types :: json
  object_types :: json
  o2o_types :: json
  event_seq :: nat
  obj_seq_by_type :: "string \<rightharpoonup> nat"
  o2o_seq :: nat
  obj_id_pad :: nat
  type_prefix :: "(string \<times> string) list"
  events :: "event list"
  objects :: "obj list"
  object_relationship_types :: json
  object_relationships :: "object_relationship list"
  base_time :: int
  event_step_mean_minutes :: rat
  event_step_std_minutes :: rat
  rng_seed :: int
  py_random :: "nat \<Rightarrow> nat"
  np_random :: "nat \<Rightarrow> rat"

text \<open>The constructor's keyword arguments, the seeding functions of the two libraries.\<close>

record config =
  cfg_event_types :: json
  cfg_object_types :: json
  cfg_o2o_types :: json
  cfg_obj_id_pad :: nat
  cfg_base_time :: int
  cfg_event_step_mean_minutes :: rat
  cfg_event_step_std_minutes :: rat
  cfg_rng_seed :: int

record stdlib =
  seed_random :: "int \<Rightarrow> nat \<Rightarrow> nat"
  seed_numpy :: "int \<Rightarrow> nat \<Rightarrow> rat"

definition default_type_prefix :: "(string \<times> string) list" where
  "default_type_prefix =
     [(''Patient'', ''pat''), (''Test'', ''test''), (''Encounter'', ''enc''),
      (''Diagnosis'', ''dx''), (''TreatmentPlan'', ''plan''), (''Dose'', ''med'')]"

definition default_config :: config where
  "default_config =
     \<lparr>cfg_event_types = DEFAULT_EVENT_TYPES, cfg_object_types = DEFAULT_OBJECT_TYPES,
      cfg_o2o_types = DEFAULT_O2O_TYPES, cfg_obj_id_pad = 3,
      cfg_base_time = 1754038800000000,
      cfg_event_step_mean_minutes = 30, cfg_event_step_std_minutes = 10,
      cfg_rng_seed = 42\<rparr>"

text \<open>
  \<open>__post_init__\<close> seeds both generators and copies the relationship schema.
  \<open>numpy.random.seed\<close> accepts only seeds from 0 to \<open>2**32 - 1\<close> and raises otherwise,
  after \<open>random.seed\<close> has run.  \<open>OCELBuilder\<close> is the construction with the field
  defaults; its last argument is the state of the generators at that moment.
\<close>

definition post_init :: "stdlib \<Rightarrow> builder \<Rightarrow> error + builder" where
  "post_init lib b =
     (let b1 = b\<lparr>py_random := seed_random lib (rng_seed b)\<rparr>
      in if 0 \<le> rng_seed b \<and> rng_seed b < 2 ^ 32
         then Inr (b1\<lparr>np_random := seed_numpy lib (rng_seed b),
                      object_relationship_types := o2o_types b\<rparr>)
         else Inl (ValueError ''Seed must be between 0 and 2**32 - 1''))"

definition OCELBuilder ::
    "stdlib \<Rightarrow> config \<Rightarrow> (nat \<Rightarrow> nat) \<times> (nat \<Rightarrow> rat) \<Rightarrow> error + builder" where
  "OCELBuilder lib cfg g =
     post_init lib
       \<lparr>event_types = cfg_event_types cfg, object_types = cfg_object_types cfg,
        o2o_types = cfg_o2o_types cfg, event_seq = 1, obj_seq_by_type = Map.empty,
        o2o_seq = 1, obj_id_pad = cfg_obj_id_pad cfg, type_prefix = default_type_prefix,
        events = [], objects = [], object_relationship_types = JList [],
        object_relationships = [], base_time = cfg_base_time cfg,
        event_step_mean_minutes = cfg_event_step_mean_minutes cfg,
        event_step_std_minutes = cfg_event_step_std_minutes cfg,
        rng_seed = cfg_rng_seed cfg, py_random = fst g, np_random = snd g\<rparr>"

subsection \<open>Random draws\<close>

text \<open>
  Each call takes the next raw draw.  \<open>random.choice\<close> and \<open>random.randint\<close> reduce it
  to the range asked for, \<open>random.random\<close> returns a 53-bit fraction, and
  \<open>numpy.random.normal(loc, scale)\<close> scales a standard deviate; it raises \<open>ValueError\<close>
  for a negative scale.
\<close>

definition random_draw :: "builder \<Rightarrow> nat \<times> builder" where
  "random_draw b = (py_random b 0, b\<lparr>py_random := (\<lambda>i. py_random b (Suc i))\<rparr>)"

definition random_choice :: "'a list \<Rightarrow> builder \<Rightarrow> 'a \<times> builder" where
  "random_choice xs b = (let (d, b') = random_draw b in (xs ! (d mod length xs), b'))"

definition random_randint :: "int \<Rightarrow> int \<Rightarrow> builder \<Rightarrow> int \<times> builder" where
  "random_randint lo hi b =
     (let (d, b') = random_draw b in (lo + int d mod (hi - lo + 1), b'))"

definition random_random :: "builder \<Rightarrow> rat \<times> builder" where
  "random_random b =
     (let (d, b') = random_draw b in (of_int (int d mod 2 ^ 53) / 2 ^ 53, b'))"

definition np_random_normal :: "rat \<Rightarrow> rat \<Rightarrow> builder \<Rightarrow> (error + rat) \<times> builder" where
  "np_random_normal loc scale b =
     (if scale < 0 then (Inl (ValueError ''scale < 0''), b)
      else (Inr (loc + scale * np_random b 0), b\<lparr>np_random := (\<lambda>i. np_random b (Suc i))\<rparr>))"

subsection \<open>Identifiers\<close>

definition uniq :: "nat \<Rightarrow> string \<Rightarrow> string \<times> nat" where
  "uniq series prefix = (prefix @ str_nat series, Suc series)"

definition new_event_id :: "builder \<Rightarrow> string \<times> builder" where
  "new_event_id b = (let (s, n) = uniq (event_seq b) ''e'' in (s, b\<lparr>event_seq := n\<rparr>))"

definition next_obj_suffix :: "string \<Rightarrow> builder \<Rightarrow> nat \<times> builder" where
  "next_obj_suffix type_name b =
     (case obj_seq_by_type b type_name of
        None \<Rightarrow> (1, b\<lparr>obj_seq_by_type := (obj_seq_by_type b)(type_name \<mapsto> 2)\<rparr>)
      | Some n \<Rightarrow> (n, b\<lparr>obj_seq_by_type := (obj_seq_by_type b)(type_name \<mapsto> Suc n)\<rparr>))"

definition new_object_id :: "string \<Rightarrow> builder \<Rightarrow> string \<times> builder" where
  "new_object_id type_name b =
     (let (n, b') = next_obj_suffix type_name b;
          pad = zfill (obj_id_pad b') (str_nat n);
          base = (case map_of (type_prefix b') type_name of Some p \<Rightarrow> p | None \<Rightarrow> ''obj'')
      in (base @ ''-'' @ pad, b'))"

subsection \<open>Attribute store\<close>

text \<open>
  Both utilities scan \<open>reversed(self.objects)\<close> for the first object with the id; the
  helpers below walk a list front to back and are called on the reversed list.
  \<open>_get_obj_attr\<close> returns \<open>None\<close> when no object or no entry matches,
  \<open>_append_attr\<close> raises \<open>KeyError\<close> when no object matches.
\<close>

fun get_in :: "obj list \<Rightarrow> string \<Rightarrow> string \<Rightarrow> pyval" where
  "get_in [] obj_id attr_name = VNone"
| "get_in (ob # rest) obj_id attr_name =
     (if o_id ob = obj_id
      then (let vals = filter (\<lambda>a. a_name a = attr_name) (o_attributes ob)
            in if vals \<noteq> [] then a_value (last vals) else VNone)
      else get_in rest obj_id attr_name)"

definition get_obj_attr :: "builder \<Rightarrow> string \<Rightarrow> string \<Rightarrow> pyval" where
  "get_obj_attr b obj_id attr_name = get_in (rev (objects b)) obj_id attr_name"

fun append_in :: "obj list \<Rightarrow> string \<Rightarrow> object_attribute \<Rightarrow> obj list option" where
  "append_in [] obj_id a = None"
| "append_in (ob # rest) obj_id a =
     (if o_id ob = obj_id
      then Some (ob\<lparr>o_attributes := o_attributes ob @ [a]\<rparr> # rest)
      else map_option (Cons ob) (append_in rest obj_id a))"

definition append_attr ::
    "string \<Rightarrow> string \<Rightarrow> isotime \<Rightarrow> pyval \<Rightarrow> builder \<Rightarrow> (error + unit) \<times> builder" where
  "append_attr obj_id name time val b =
     (case append_in (rev (objects b)) obj_id \<lparr>a_name = name, a_time = time, a_value = val\<rparr> of
        Some os \<Rightarrow> (Inr (), b\<lparr>objects := rev os\<rparr>)
      | None \<Rightarrow> (Inl (KeyError (''Object '' @ obj_id @ '' not found'')), b))"

fun append_obj_attrs ::
    "string \<Rightarrow> (string \<times> isotime \<times> pyval) list \<Rightarrow> builder \<Rightarrow> (error + unit) \<times> builder" where
  "append_obj_attrs obj_id [] b = (Inr (), b)"
| "append_obj_attrs obj_id ((n, t, v) # triples) b =
     (case append_attr obj_id n t v b of
        (Inl e, b') \<Rightarrow> (Inl e, b')
      | (Inr u, b') \<Rightarrow> append_obj_attrs obj_id triples b')"

subsection \<open>Object creation\<close>

definition create_patient :: "nat \<Rightarrow> int \<Rightarrow> builder \<Rightarrow> string \<times> builder" where
  "create_patient tidx t b =
     (let (oid, b1) = new_object_id ''Patient'' b;
          (sex, b2) = random_choice [''M'', ''F''] b1;
          (age, b3) = random_randint 20 85 b2;
          ob = \<lparr>o_id = oid, o_type = ''Patient'', o_attributes =
            [\<lparr>a_name = ''patient_id'', a_time = iso t, a_value = VStr (''P-'' @ fmt_d 4 tidx)\<rparr>,
             \<lparr>a_name = ''sex'', a_time = iso t, a_value = VStr sex\<rparr>,
             \<lparr>a_name = ''age'', a_time = iso t, a_value = VInt age\<rparr>,
             \<lparr>a_name = ''contradindications'', a_time = iso t, a_value = VStr ''none''\<rparr>,
             \<lparr>a_name = ''allergies'', a_time = iso t, a_value = VStr ''none''\<rparr>,
             \<lparr>a_name = ''status'', a_time = iso t, a_value = VStr ''Outpatient''\<rparr>,
             \<lparr>a_name = ''condition'', a_time = iso t, a_value = VStr ''Stable''\<rparr>]\<rparr>
      in (oid, b3\<lparr>objects := objects b3 @ [ob]\<rparr>))"

definition create_visit :: "nat \<Rightarrow> int \<Rightarrow> builder \<Rightarrow> string \<times> builder" where
  "create_visit tidx t b =
     (let (oid, b1) = new_object_id ''Encounter'' b;
          (reason, b2) = random_choice [''StomachPain'', ''ChestPain'', ''ThroatPain''] b1;
          ob = \<lparr>o_id = oid, o_type = ''Encounter'', o_attributes =
            [\<lparr>a_name = ''enc_id'', a_time = iso t, a_value = VStr (''E-'' @ fmt_d 4 tidx)\<rparr>,
             \<lparr>a_name = ''patient_id'', a_time = iso t, a_value = VStr (''P-'' @ fmt_d 4 tidx)\<rparr>,
             \<lparr>a_name = ''type'', a_time = iso t, a_value = VStr ''Outpatient''\<rparr>,
             \<lparr>a_name = ''dept'', a_time = iso t, a_value = VStr ''Oncology''\<rparr>,
             \<lparr>a_name = ''start_time'', a_time = iso t, a_value = VTime (iso t)\<rparr>,
             \<lparr>a_name = ''status'', a_time = iso t, a_value = VStr ''open''\<rparr>,
             \<lparr>a_name = ''reason'', a_time = iso t, a_value = VStr reason\<rparr>,
             \<lparr>a_name = ''billing_status'', a_time = iso t, a_value = VStr ''unpaid''\<rparr>]\<rparr>
      in (oid, b2\<lparr>objects := objects b2 @ [ob]\<rparr>))"

definition create_test :: "ctx \<Rightarrow> int \<Rightarrow> string \<Rightarrow> builder \<Rightarrow> string \<times> builder" where
  "create_test c t modality b =
     (let test_num_in_trace = length (test_ids c) + 1;
          oid = ''test-'' @ fmt_d 3 (trace_index c) @ ''-'' @ str_nat test_num_in_trace;
          (findings, b1) = random_choice [''Suspicious'', ''Normal''] b;
          ob = \<lparr>o_id = oid, o_type = ''Test'', o_attributes =
            [\<lparr>a_name = ''test_id'', a_time = iso t, a_value =
                VStr (''T-'' @ fmt_d 4 (trace_index c) @ ''-'' @ modality @ str_nat test_num_in_trace)\<rparr>,
             \<lparr>a_name = ''patient_id'', a_time = iso t, a_value = VStr (''P-'' @ fmt_d 4 (trace_index c))\<rparr>,
             \<lparr>a_name = ''modality'', a_time = iso t, a_value = VStr modality\<rparr>,
             \<lparr>a_name = ''perform_time'', a_time = iso t, a_value = VTime (iso t)\<rparr>,
             \<lparr>a_name = ''result_state'', a_time = iso t, a_value = VStr ''Unreviewed''\<rparr>,
             \<lparr>a_name = ''findings'', a_time = iso (t + timedelta_minutes 15), a_value = VStr findings\<rparr>]\<rparr>
      in (oid, b1\<lparr>objects := objects b1 @ [ob]\<rparr>))"

definition create_diagnosis :: "ctx \<Rightarrow> int \<Rightarrow> builder \<Rightarrow> string \<times> builder" where
  "create_diagnosis c t b =
     (let (oid, b1) = new_object_id ''Diagnosis'' b;
          (site, b2) = random_choice [''Lung'', ''Stomach'', ''Breast''] b1;
          (stage, b3) = random_choice [''I'', ''II'', ''III'', ''IV''] b2;
          ob = \<lparr>o_id = oid, o_type = ''Diagnosis'', o_attributes =
            [\<lparr>a_name = ''dx_id'', a_time = iso t, a_value = VStr (''DX-'' @ fmt_d 4 (trace_index c))\<rparr>,
             \<lparr>a_name = ''patient_id'', a_time = iso t, a_value = VStr (''P-'' @ fmt_d 4 (trace_index c))\<rparr>,
             \<lparr>a_name = ''primary_site'', a_time = iso t, a_value = VStr site\<rparr>,
             \<lparr>a_name = ''stage'', a_time = iso t, a_value = VStr stage\<rparr>,
             \<lparr>a_name = ''confirm_time'', a_time = iso t, a_value = VTime (iso t)\<rparr>]\<rparr>
      in (oid, b3\<lparr>objects := objects b3 @ [ob]\<rparr>))"

definition create_plan :: "ctx \<Rightarrow> int \<Rightarrow> string \<Rightarrow> builder \<Rightarrow> string \<times> builder" where
  "create_plan c t dx b =
     (let (oid, b1) = new_object_id ''TreatmentPlan'' b;
          dx_id_val = get_obj_attr b1 dx ''dx_id'';
          (intent, b2) = random_choice [''curative'', ''palliative''] b1;
          (regimen, b3) = random_choice [''FOLFOX'', ''FOLFIRI'', ''CAPOX''] b2;
          ob = \<lparr>o_id = oid, o_type = ''TreatmentPlan'', o_attributes =
            [\<lparr>a_name = ''plan_id'', a_time = iso t, a_value = VStr (''PLAN-'' @ fmt_d 4 (trace_index c))\<rparr>,
             \<lparr>a_name = ''patient_id'', a_time = iso t, a_value = VStr (''P-'' @ fmt_d 4 (trace_index c))\<rparr>,
             \<lparr>a_name = ''dx_id'', a_time = iso t, a_value = dx_id_val\<rparr>,
             \<lparr>a_name = ''intent'', a_time = iso t, a_value = VStr intent\<rparr>,
             \<lparr>a_name = ''primary_modality'', a_time = iso t, a_value = VStr ''medication''\<rparr>,
             \<lparr>a_name = ''regimen'', a_time = iso t, a_value = VStr regimen\<rparr>,
             \<lparr>a_name = ''status'', a_time = iso t, a_value = VStr ''Planned''\<rparr>]\<rparr>
      in (oid, b3\<lparr>objects := objects b3 @ [ob]\<rparr>))"

definition create_medication :: "ctx \<Rightarrow> int \<Rightarrow> string \<Rightarrow> builder \<Rightarrow> string \<times> builder" where
  "create_medication c t pl b =
     (let med_num_in_trace = length (medication_ids c) + 1;
          oid = ''med-'' @ fmt_d 3 (trace_index c) @ ''-'' @ str_nat med_num_in_trace;
          plan_id_val = get_obj_attr b pl ''plan_id'';
          (drug, b1) = random_choice [''pembrolizumab'', ''trastuzumab'', ''paclitaxel''] b;
          (amount, b2) = random_randint 100 500 b1;
          (r, b3) = random_random b2;
          ob = \<lparr>o_id = oid, o_type = ''Dose'', o_attributes =
            [\<lparr>a_name = ''admin_id'', a_time = iso t, a_value =
                VStr (''D-'' @ fmt_d 4 (trace_index c) @ ''-'' @ str_nat med_num_in_trace)\<rparr>,
             \<lparr>a_name = ''patient_id'', a_time = iso t, a_value = VStr (''P-'' @ fmt_d 4 (trace_index c))\<rparr>,
             \<lparr>a_name = ''plan_id'', a_time = iso t, a_value = plan_id_val\<rparr>,
             \<lparr>a_name = ''drug_name'', a_time = iso t, a_value = VStr drug\<rparr>,
             \<lparr>a_name = ''amount'', a_time = iso t, a_value = VInt amount\<rparr>,
             \<lparr>a_name = ''route'', a_time = iso t, a_value = VStr ''IV''\<rparr>,
             \<lparr>a_name = ''given_time'', a_time = iso t, a_value = VTime (iso t)\<rparr>,
             \<lparr>a_name = ''adverse_event'', a_time = iso (t + timedelta_minutes 30), a_value =
                VStr (if 1 / 5 < r then ''None'' else ''Nausea'')\<rparr>]\<rparr>
      in (oid, b3\<lparr>objects := objects b3 @ [ob]\<rparr>))"

definition init_trace_objects :: "nat \<Rightarrow> int \<Rightarrow> builder \<Rightarrow> ctx \<times> builder" where
  "init_trace_objects tidx t b =
     (let (pid, b1) = create_patient tidx t b;
          (vid, b2) = create_visit tidx t b1
      in (\<lparr>trace_index = tidx, start_time = t, patient_id = pid,
           visit_id = vid, diagnosis_id = None, plan_id = None, medication_ids = [],
           test_ids = [], med_cycles = 0\<rparr>, b2))"

section \<open>Activity handlers\<close>

text \<open>
  A handler mutates the context dictionary and the builder and appends one event.  It
  returns the updated context, or the exception that left it; the builder is returned in
  both cases, as it stands when the handler is left.
\<close>

definition emit_event_registration :: "ctx \<Rightarrow> int \<Rightarrow> builder \<Rightarrow> (error + ctx) \<times> builder" where
  "emit_event_registration c t b =
     (let (eid, b1) = new_event_id b;
          e = \<lparr>e_id = eid, e_type = ''OutpatientRegistration'', e_time = iso t,
               e_attributes = [\<lparr>ea_name = ''ReceptionDesk'', ea_value =
                  VStr (''Outpatient '' @ str_nat (trace_index c mod 3 + 1))\<rparr>],
               e_relationships =
                 [\<lparr>objectId = patient_id c, qualifier = ''subject''\<rparr>,
                  \<lparr>objectId = visit_id c, qualifier = ''encounter''\<rparr>]\<rparr>
      in (Inr c, b1\<lparr>events := events b1 @ [e]\<rparr>))"

definition emit_event_initial_consult :: "ctx \<Rightarrow> int \<Rightarrow> builder \<Rightarrow> (error + ctx) \<times> builder" where
  "emit_event_initial_consult c t b =
     (let (doctor, b1) = random_choice [''Dr. Kim'', ''Dr. Cha'', ''Dr.Jung''] b
      in case append_attr (visit_id c) ''attending'' (iso t) (VStr doctor) b1 of
           (Inl err, b2) \<Rightarrow> (Inl err, b2)
         | (Inr u, b2) \<Rightarrow>
             (let (eid, b3) = new_event_id b2;
                  (dept, b4) = random_choice [''Oncology'', ''Surgery''] b3;
                  e = \<lparr>e_id = eid, e_type = ''InitialVisit'', e_time = iso t,
                       e_attributes =
                         [\<lparr>ea_name = ''Department'', ea_value = VStr dept\<rparr>,
                          \<lparr>ea_name = ''AttendingPhysician'', ea_value = VStr doctor\<rparr>],
                       e_relationships =
                         [\<lparr>objectId = patient_id c, qualifier = ''subject''\<rparr>,
                          \<lparr>objectId = visit_id c, qualifier = ''encounter''\<rparr>]\<rparr>
              in (Inr c, b4\<lparr>events := events b4 @ [e]\<rparr>)))"

definition emit_event_imaging :: "ctx \<Rightarrow> int \<Rightarrow> builder \<Rightarrow> (error + ctx) \<times> builder" where
  "emit_event_imaging c t b =
     (let (modality, b1) = random_choice [''CT'', ''MRI'', ''PET''] b;
          (test_id, b2) = create_test c t modality b1;
          c1 = c\<lparr>test_ids := test_ids c @ [test_id]\<rparr>;
          (eid, b3) = new_event_id b2;
          e = \<lparr>e_id = eid, e_type = ''ImagingTest'', e_time = iso t,
               e_attributes = [\<lparr>ea_name = ''TestType'', ea_value = VStr modality\<rparr>],
               e_relationships =
                 [\<lparr>objectId = patient_id c1, qualifier = ''subject''\<rparr>,
                  \<lparr>objectId = visit_id c1, qualifier = ''encounter''\<rparr>,
                  \<lparr>objectId = test_id, qualifier = ''order''\<rparr>]\<rparr>
      in (Inr c1, b3\<lparr>events := events b3 @ [e]\<rparr>))"

definition emit_event_lab :: "ctx \<Rightarrow> int \<Rightarrow> builder \<Rightarrow> (error + ctx) \<times> builder" where
  "emit_event_lab c t b =
     (let (modality, b1) = random_choice [''Blood'', ''Pathology''] b;
          (test_id, b2) = create_test c t modality b1;
          c1 = c\<lparr>test_ids := test_ids c @ [test_id]\<rparr>;
          (eid, b3) = new_event_id b2;
          e = \<lparr>e_id = eid, e_type = ''LabTest'', e_time = iso t,
               e_attributes = [\<lparr>ea_name = ''TestType'', ea_value = VStr modality\<rparr>],
               e_relationships =
                 [\<lparr>objectId = patient_id c1, qualifier = ''subject''\<rparr>,
                  \<lparr>objectId = visit_id c1, qualifier = ''encounter''\<rparr>,
                  \<lparr>objectId = test_id, qualifier = ''order''\<rparr>]\<rparr>
      in (Inr c1, b3\<lparr>events := events b3 @ [e]\<rparr>))"

text \<open>The first loop of \<open>_emit_event_followup\<close>, over the context's test ids.\<close>

fun mark_reviewed :: "string list \<Rightarrow> isotime \<Rightarrow> builder \<Rightarrow> (error + unit) \<times> builder" where
  "mark_reviewed [] ts b = (Inr (), b)"
| "mark_reviewed (test_id # rest) ts b =
     (case append_attr test_id ''result_state'' ts (VStr ''Reviewed'') b of
        (Inl err, b') \<Rightarrow> (Inl err, b')
      | (Inr u, b') \<Rightarrow> mark_reviewed rest ts b')"

definition emit_event_followup :: "ctx \<Rightarrow> int \<Rightarrow> builder \<Rightarrow> (error + ctx) \<times> builder" where
  "emit_event_followup c t b =
     (case mark_reviewed (test_ids c) (iso t) b of
        (Inl err, b1) \<Rightarrow> (Inl err, b1)
      | (Inr u, b1) \<Rightarrow>
          (let (eid, b2) = new_event_id b1;
               (assessment, b3) =
                  random_choice [''AdditionalTesting'', ''TreatmentPlanning'', ''Monitoring''] b2;
               e = \<lparr>e_id = eid, e_type = ''FollowUpVisit'', e_time = iso t,
                    e_attributes = [\<lparr>ea_name = ''Assessment'', ea_value = VStr assessment\<rparr>],
                    e_relationships =
                      [\<lparr>objectId = patient_id c, qualifier = ''subject''\<rparr>,
                       \<lparr>objectId = visit_id c, qualifier = ''encounter''\<rparr>]\<rparr>;
               e1 = foldl (\<lambda>ev test_id. ev\<lparr>e_relationships := e_relationships ev @
                             [\<lparr>objectId = test_id, qualifier = ''reviewed_test''\<rparr>]\<rparr>)
                      e (test_ids c)
           in (Inr c, b3\<lparr>events := events b3 @ [e1]\<rparr>)))"

definition emit_event_mdt :: "ctx \<Rightarrow> int \<Rightarrow> builder \<Rightarrow> (error + ctx) \<times> builder" where
  "emit_event_mdt c t b =
     (let (dx, c1, b1) =
            (case diagnosis_id c of
               None \<Rightarrow> (let (d, b') = create_diagnosis c t b
                         in (d, c\<lparr>diagnosis_id := Some d\<rparr>, b'))
             | Some d \<Rightarrow> (d, c, b));
          (pl, c2, b2) =
            (case plan_id c1 of
               None \<Rightarrow> (let (p, b') = create_plan c1 t dx b1
                         in (p, c1\<lparr>plan_id := Some p\<rparr>, b'))
             | Some p \<Rightarrow> (p, c1, b1));
          (eid, b3) = new_event_id b2;
          e = \<lparr>e_id = eid, e_type = ''MDT'', e_time = iso t,
               e_attributes =
                 [\<lparr>ea_name = ''Care Team'', ea_value = VStr ''OncologySurgeryRadiology''\<rparr>],
               e_relationships =
                 [\<lparr>objectId = patient_id c2, qualifier = ''subject''\<rparr>,
                  \<lparr>objectId = visit_id c2, qualifier = ''encounter''\<rparr>,
                  \<lparr>objectId = dx, qualifier = ''diagnosis''\<rparr>,
                  \<lparr>objectId = pl, qualifier = ''plan''\<rparr>]\<rparr>
      in (Inr c2, b3\<lparr>events := events b3 @ [e]\<rparr>))"

definition emit_event_medication :: "ctx \<Rightarrow> int \<Rightarrow> builder \<Rightarrow> (error + ctx) \<times> builder" where
  "emit_event_medication c t b =
     (let (dx, c1, b1) =
            (case diagnosis_id c of
               None \<Rightarrow> (let (d, b') = create_diagnosis c t b
                         in (d, c\<lparr>diagnosis_id := Some d\<rparr>, b'))
             | Some d \<Rightarrow> (d, c, b));
          (pl, c2, b2) =
            (case plan_id c1 of
               None \<Rightarrow> (let (p, b') = create_plan c1 t dx b1
                         in (p, c1\<lparr>plan_id := Some p\<rparr>, b'))
             | Some p \<Rightarrow> (p, c1, b1));
          (med_id, b3) = create_medication c2 t pl b2;
          c3 = c2\<lparr>medication_ids := medication_ids c2 @ [med_id]\<rparr>;
          c4 = c3\<lparr>med_cycles := med_cycles c3 + 1\<rparr>
      in case append_attr pl ''status'' (iso t) (VStr ''Proceed'') b3 of
           (Inl err, b4) \<Rightarrow> (Inl err, b4)
         | (Inr u, b4) \<Rightarrow>
             (let (eid, b5) = new_event_id b4;
                  e = \<lparr>e_id = eid, e_type = ''MedicationTreatment'', e_time = iso t,
                       e_attributes =
                         [\<lparr>ea_name = ''CycleNumber'', ea_value = VInt (int (med_cycles c4))\<rparr>],
                       e_relationships =
                         [\<lparr>objectId = patient_id c4, qualifier = ''subject''\<rparr>,
                          \<lparr>objectId = visit_id c4, qualifier = ''encounter''\<rparr>,
                          \<lparr>objectId = pl, qualifier = ''plan''\<rparr>,
                          \<lparr>objectId = med_id, qualifier = ''drug_admin''\<rparr>]\<rparr>
              in (Inr c4, b5\<lparr>events := events b5 @ [e]\<rparr>)))"

definition emit_event_payment :: "ctx \<Rightarrow> int \<Rightarrow> builder \<Rightarrow> (error + ctx) \<times> builder" where
  "emit_event_payment c t b =
     (let (amount, b1) = random_randint 100000 1000000 b;
          (method, b2) = random_choice [''card'', ''cash'', ''transfer''] b1
      in case append_obj_attrs (visit_id c)
                [(''billing_amount'', iso t, VInt amount),
                 (''billing_status'', iso t, VStr ''paid''),
                 (''payment_method'', iso t, VStr method),
                 (''billing_time'', iso t, VTime (iso t))] b2 of
           (Inl err, b3) \<Rightarrow> (Inl err, b3)
         | (Inr u, b3) \<Rightarrow>
             (let (eid, b4) = new_event_id b3;
                  e = \<lparr>e_id = eid, e_type = ''Payment'', e_time = iso t,
                       e_attributes =
                         [\<lparr>ea_name = ''PaymentMethod'', ea_value = VStr method\<rparr>,
                          \<lparr>ea_name = ''PaymentAmount'', ea_value = VInt amount\<rparr>],
                       e_relationships =
                         [\<lparr>objectId = patient_id c, qualifier = ''subject''\<rparr>,
                          \<lparr>objectId = visit_id c, qualifier = ''billing_encounter''\<rparr>]\<rparr>
              in (Inr c, b4\<lparr>events := events b4 @ [e]\<rparr>)))"

definition emit_event_discharge :: "ctx \<Rightarrow> int \<Rightarrow> builder \<Rightarrow> (error + ctx) \<times> builder" where
  "emit_event_discharge c t b =
     (case append_obj_attrs (visit_id c)
             [(''status'', iso t, VStr ''closed''),
              (''end_time'', iso t, VTime (iso t))] b of
        (Inl err, b1) \<Rightarrow> (Inl err, b1)
      | (Inr u, b1) \<Rightarrow>
          (let (eid, b2) = new_event_id b1;
               e = \<lparr>e_id = eid, e_type = ''Discharge'', e_time = iso t,
                    e_attributes = [],
                    e_relationships =
                      [\<lparr>objectId = patient_id c, qualifier = ''subject''\<rparr>,
                       \<lparr>objectId = visit_id c, qualifier = ''encounter''\<rparr>]\<rparr>
           in (Inr c, b2\<lparr>events := events b2 @ [e]\<rparr>)))"

section \<open>Relationship emitter\<close>

definition new_rel :: "string \<Rightarrow> int \<Rightarrow> string \<Rightarrow> string \<Rightarrow> builder \<Rightarrow> builder" where
  "new_rel rtype time src tgt b =
     b\<lparr>o2o_seq := Suc (o2o_seq b),
       object_relationships := object_relationships b @
         [\<lparr>r_id = ''or'' @ str_nat (o2o_seq b), r_type = rtype, r_time = iso time,
           sourceObject = src, targetObject = tgt, r_attributes = []\<rparr>]\<rparr>"

text \<open>
  The guard \<open>ctx["plan_id"] and ctx["medication_ids"]\<close> is Python truthiness: the plan
  id is neither \<open>None\<close> nor the empty string, and the list is not empty.
\<close>

definition emit_o2o :: "ctx \<Rightarrow> builder \<Rightarrow> builder" where
  "emit_o2o c b =
     (let b1 = new_rel ''Encounter-Patient'' (start_time c) (visit_id c) (patient_id c) b
      in case plan_id c of
           None \<Rightarrow> b1
         | Some pl \<Rightarrow>
             if pl \<noteq> [] \<and> medication_ids c \<noteq> []
             then foldl (\<lambda>b' med_id. new_rel ''TreatmentPlan-Dose'' (start_time c) pl med_id b')
                    b1 (medication_ids c)
             else b1)"

section \<open>Replay\<close>

text \<open>The dispatch chain of \<open>_add_single_trace\<close>, and the loop around it.\<close>

definition dispatch :: "string \<Rightarrow> ctx \<Rightarrow> int \<Rightarrow> builder \<Rightarrow> (error + ctx) \<times> builder" where
  "dispatch act c t b =
     (if act = ''OutpatientRegistration'' then emit_event_registration c t b
      else if act = ''InitialVisit'' then emit_event_initial_consult c t b
      else if act = ''ImagingTest'' then emit_event_imaging c t b
      else if act = ''LabTest'' then emit_event_lab c t b
      else if act = ''FollowUpVisit'' then emit_event_followup c t b
      else if act = ''JointConsult'' then emit_event_mdt c t b
      else if act = ''MedicationTreatment'' then emit_event_medication c t b
      else if act = ''Payment'' then emit_event_payment c t b
      else if act = ''Discharge'' then emit_event_discharge c t b
      else (Inl (ValueError (''Unknown activity label: '' @ act)), b))"

fun replay :: "string list \<Rightarrow> ctx \<Rightarrow> int \<Rightarrow> int \<Rightarrow> builder \<Rightarrow> (error + ctx) \<times> builder" where
  "replay [] c t step b = (Inr c, b)"
| "replay (act # activities) c t step b =
     (case dispatch act c t b of
        (Inl err, b') \<Rightarrow> (Inl err, b')
      | (Inr c', b') \<Rightarrow> replay activities c' (t + step) step b')"

definition add_single_trace :: "nat \<Rightarrow> string list \<Rightarrow> builder \<Rightarrow> (error + unit) \<times> builder" where
  "add_single_trace tidx activities b =
     (let t = base_time b + timedelta_hours (int tidx - 1)
      in case np_random_normal (event_step_mean_minutes b) (event_step_std_minutes b) b of
           (Inl err, b1) \<Rightarrow> (Inl err, b1)
         | (Inr minutes_to_add, b1) \<Rightarrow>
             (let step = timedelta_minutes (max 10 minutes_to_add);
                  (c, b2) = init_trace_objects tidx t b1
              in case replay activities c t step b2 of
                   (Inl err, b3) \<Rightarrow> (Inl err, b3)
                 | (Inr c', b3) \<Rightarrow> (Inr (), emit_o2o c' b3)))"

text \<open>\<open>add_traces\<close> numbers the traces from 1.\<close>

fun add_traces_from :: "nat \<Rightarrow> string list list \<Rightarrow> builder \<Rightarrow> (error + unit) \<times> builder" where
  "add_traces_from idx [] b = (Inr (), b)"
| "add_traces_from idx (trace # traces) b =
     (case add_single_trace idx trace b of
        (Inl err, b') \<Rightarrow> (Inl err, b')
      | (Inr u, b') \<Rightarrow> add_traces_from (Suc idx) traces b')"

definition add_traces :: "string list list \<Rightarrow> builder \<Rightarrow> (error + unit) \<times> builder" where
  "add_traces traces b = add_traces_from 1 traces b"

record document =
  eventTypes :: json
  objectTypes :: json
  doc_events :: "event list"
  doc_objects :: "obj list"
  objectRelationshipTypes :: json
  objectRelationships :: "object_relationship list"

definition to_json :: "builder \<Rightarrow> document" where
  "to_json b =
     \<lparr>eventTypes = event_types b, objectTypes = object_types b, doc_events = events b,
      doc_objects = objects b, objectRelationshipTypes = object_relationship_types b,
      objectRelationships = object_relationships b\<rparr>"

text \<open>
  A full run, as the script at the end of the file makes it: construct the builder, add
  the traces, take the document.  The second component is the state in which the run
  leaves the two generators.
\<close>

definition generate ::
    "stdlib \<Rightarrow> config \<Rightarrow> string list list \<Rightarrow> (nat \<Rightarrow> nat) \<times> (nat \<Rightarrow> rat)
       \<Rightarrow> (error + document) \<times> ((nat \<Rightarrow> nat) \<times> (nat \<Rightarrow> rat))" where
  "generate lib cfg traces g =
     (case OCELBuilder lib cfg g of
        Inl err \<Rightarrow> (Inl err, (seed_random lib (cfg_rng_seed cfg), snd g))
      | Inr b \<Rightarrow>
          (case add_traces traces b of
             (Inl err, b') \<Rightarrow> (Inl err, (py_random b', np_random b'))
           | (Inr u, b') \<Rightarrow> (Inr (to_json b'), (py_random b', np_random b'))))"

text \<open>The labels the dispatch chain knows.\<close>

definition activity_vocabulary :: "string list" where
  "activity_vocabulary =
     [''OutpatientRegistration'', ''InitialVisit'', ''ImagingTest'', ''LabTest'',
      ''FollowUpVisit'', ''JointConsult'', ''MedicationTreatment'', ''Payment'', ''Discharge'']"

section \<open>Definitions for the proofs\<close>

text \<open>
  \<open>add_entry\<close> is what a successful \<open>_append_attr\<close> does to the object list: the last
  object with the id gets the entry, every other object stays as it is.
\<close>

definition add_entry :: "string \<Rightarrow> object_attribute \<Rightarrow> obj list \<Rightarrow> obj list" where
  "add_entry obj_id a os = (case append_in (rev os) obj_id a of Some os' \<Rightarrow> rev os' | None \<Rightarrow> os)"

text \<open>
  A library whose generators return 0 at every draw, and the builder it constructs from
  the default configuration.
\<close>

definition example_lib :: stdlib where
  "example_lib = \<lparr>seed_random = (\<lambda>s i. 0), seed_numpy = (\<lambda>s i. 0)\<rparr>"

definition example_builder :: builder where
  "example_builder =
     \<lparr>event_types = DEFAULT_EVENT_TYPES, object_types = DEFAULT_OBJECT_TYPES,
      o2o_types = DEFAULT_O2O_TYPES, event_seq = 1, obj_seq_by_type = Map.empty,
      o2o_seq = 1, obj_id_pad = 3, type_prefix = default_type_prefix,
      events = [], objects = [], object_relationship_types = DEFAULT_O2O_TYPES,
      object_relationships = [], base_time = 1754038800000000,
      event_step_mean_minutes = 30, event_step_std_minutes = 10,
      rng_seed = 42, py_random = (\<lambda>i. 0), np_random = (\<lambda>i. 0)\<rparr>"

definition skel :: "obj list \<Rightarrow> (string \<times> string) list" where
  "skel os = map (\<lambda>ob. (o_id ob, o_type ob)) os"

definition mark_all :: "string list \<Rightarrow> isotime \<Rightarrow> obj list \<Rightarrow> obj list" where
  "mark_all tids ts os =
     foldl (\<lambda>os' tid. add_entry tid \<lparr>a_name = ''result_state'', a_time = ts, a_value = VStr ''Reviewed''\<rparr> os')
       os tids"

definition ctx_ok :: "ctx \<Rightarrow> builder \<Rightarrow> bool" where
  "ctx_ok c b \<longleftrightarrow>
     visit_id c \<in> o_id ` set (objects b) \<and> set (test_ids c) \<subseteq> o_id ` set (objects b)
     \<and> set_option (plan_id c) \<subseteq> o_id ` set (objects b)"

definition opt_list :: "'a option \<Rightarrow> 'a list" where
  "opt_list x = (case x of None \<Rightarrow> [] | Some y \<Rightarrow> [y])"

definition of_type :: "string \<Rightarrow> (string \<times> string) list \<Rightarrow> string list" where
  "of_type ty sk = map fst (filter (\<lambda>p. snd p = ty) sk)"

definition made :: "string \<times> builder \<Rightarrow> obj" where
  "made r = last (objects (snd r))"

definition known :: "string \<Rightarrow> bool" where
  "known act \<longleftrightarrow> act \<in> set activity_vocabulary"

definition step_summary :: "string \<Rightarrow> ctx \<Rightarrow> int \<Rightarrow> builder \<Rightarrow> ctx \<Rightarrow> builder \<Rightarrow> bool" where
  "step_summary act c t b c' b' \<longleftrightarrow>
     (\<exists>e. events b' = events b @ [e] \<and> e_time e = iso t
        \<and> e_type e = (if act = ''JointConsult'' then ''MDT'' else act)
        \<and> \<lparr>objectId = patient_id c, qualifier = ''subject''\<rparr> \<in> set (e_relationships e)
        \<and> (\<forall>r\<in>set (e_relationships e).
              (qualifier r = ''diagnosis'' \<longrightarrow> diagnosis_id c' = Some (objectId r))
              \<and> (qualifier r = ''plan'' \<longrightarrow> plan_id c' = Some (objectId r))))
     \<and> (\<exists>cr. skel (objects b') = skel (objects b) @ cr
        \<and> test_ids c' = test_ids c @ of_type ''Test'' cr
        \<and> medication_ids c' = medication_ids c @ of_type ''Dose'' cr
        \<and> opt_list (diagnosis_id c') = opt_list (diagnosis_id c) @ of_type ''Diagnosis'' cr
        \<and> opt_list (plan_id c') = opt_list (plan_id c) @ of_type ''TreatmentPlan'' cr
        \<and> of_type ''Patient'' cr = [] \<and> of_type ''Encounter'' cr = []
        \<and> length (of_type ''Test'' cr) = (if act = ''ImagingTest'' \<or> act = ''LabTest'' then 1 else 0)
        \<and> length (of_type ''Dose'' cr) = (if act = ''MedicationTreatment'' then 1 else 0))
     \<and> (if act = ''JointConsult'' \<or> act = ''MedicationTreatment''
         then diagnosis_id c' \<noteq> None \<and> plan_id c' \<noteq> None
         else diagnosis_id c' = diagnosis_id c \<and> plan_id c' = plan_id c)
     \<and> (plan_id c' = plan_id c \<or> plan_id c' \<noteq> Some [])
     \<and> patient_id c' = patient_id c \<and> visit_id c' = visit_id c
     \<and> trace_index c' = trace_index c \<and> start_time c' = start_time c
     \<and> object_relationships b' = object_relationships b \<and> o2o_seq b' = o2o_seq b
     \<and> base_time b' = base_time b
     \<and> event_step_mean_minutes b' = event_step_mean_minutes b
     \<and> event_step_std_minutes b' = event_step_std_minutes b
     \<and> ctx_ok c' b'"

definition replay_post ::
    "string list \<Rightarrow> ctx \<Rightarrow> int \<Rightarrow> int \<Rightarrow> builder \<Rightarrow> ctx \<Rightarrow> builder \<Rightarrow> bool" where
  "replay_post acts c t step b c' b' \<longleftrightarrow>
     (\<exists>evs. events b' = events b @ evs
        \<and> map e_time evs = map (\<lambda>k. iso (t + int k * step)) [0..<length acts]
        \<and> map e_type evs = map (\<lambda>a. if a = ''JointConsult'' then ''MDT'' else a) acts
        \<and> (\<forall>e\<in>set evs.
              \<lparr>objectId = patient_id c, qualifier = ''subject''\<rparr> \<in> set (e_relationships e)
              \<and> (\<forall>r\<in>set (e_relationships e).
                    (qualifier r = ''diagnosis'' \<longrightarrow> diagnosis_id c' = Some (objectId r))
                    \<and> (qualifier r = ''plan'' \<longrightarrow> plan_id c' = Some (objectId r)))))
     \<and> (\<exists>cr. skel (objects b') = skel (objects b) @ cr
        \<and> test_ids c' = test_ids c @ of_type ''Test'' cr
        \<and> medication_ids c' = medication_ids c @ of_type ''Dose'' cr
        \<and> opt_list (diagnosis_id c') = opt_list (diagnosis_id c) @ of_type ''Diagnosis'' cr
        \<and> opt_list (plan_id c') = opt_list (plan_id c) @ of_type ''TreatmentPlan'' cr
        \<and> of_type ''Patient'' cr = [] \<and> of_type ''Encounter'' cr = []
        \<and> length (of_type ''Test'' cr) =
              length (filter (\<lambda>a. a = ''ImagingTest'' \<or> a = ''LabTest'') acts)
        \<and> length (of_type ''Dose'' cr) =
              length (filter (\<lambda>a. a = ''MedicationTreatment'') acts))
     \<and> (if \<exists>a\<in>set acts. a = ''JointConsult'' \<or> a = ''MedicationTreatment''
         then diagnosis_id c' \<noteq> None \<and> plan_id c' \<noteq> None
         else diagnosis_id c' = diagnosis_id c \<and> plan_id c' = plan_id c)
     \<and> (plan_id c' = plan_id c \<or> plan_id c' \<noteq> Some [])
     \<and> patient_id c' = patient_id c \<and> visit_id c' = visit_id c
     \<and> trace_index c' = trace_index c \<and> start_time c' = start_time c
     \<and> object_relationships b' = object_relationships b \<and> o2o_seq b' = o2o_seq b
     \<and> base_time b' = base_time b
     \<and> event_step_mean_minutes b' = event_step_mean_minutes b
     \<and> event_step_std_minutes b' = event_step_std_minutes b
     \<and> ctx_ok c' b'"

text \<open>
  The start time and the step of a trace, as the first lines of \<open>_add_single_trace\<close>
  compute them; the context and the builder with which the replay of the trace starts;
  the objects of one type that a run has added to a builder, by id and in
  the order of creation; the events it has added.
\<close>

definition trace_start :: "builder \<Rightarrow> nat \<Rightarrow> int" where
  "trace_start b tidx = base_time b + timedelta_hours (int tidx - 1)"

definition trace_step :: "builder \<Rightarrow> int" where
  "trace_step b =
     timedelta_minutes
       (max 10 (event_step_mean_minutes b + event_step_std_minutes b * np_random b 0))"

definition trace_init :: "builder \<Rightarrow> nat \<Rightarrow> ctx \<times> builder" where
  "trace_init b tidx =
     init_trace_objects tidx (trace_start b tidx) (b\<lparr>np_random := (\<lambda>i. np_random b (Suc i))\<rparr>)"

definition created_of :: "string \<Rightarrow> builder \<Rightarrow> builder \<Rightarrow> string list" where
  "created_of ty b b' =
     map o_id (filter (\<lambda>ob. o_type ob = ty) (drop (length (objects b)) (objects b')))"

definition emitted :: "builder \<Rightarrow> builder \<Rightarrow> event list" where
  "emitted b b' = drop (length (events b)) (events b')"


text \<open>The names that a schema list declares.\<close>

fun schema_names :: "json \<Rightarrow> string list" where
  "schema_names (JList xs) =
     concat (map (\<lambda>x. case x of
                      JObj kvs \<Rightarrow> (case map_of kvs ''name'' of Some (JStr n) \<Rightarrow> [n] | _ \<Rightarrow> [])
                    | _ \<Rightarrow> []) xs)"
| "schema_names _ = []"

text \<open>
  The two entries that a creator stamps later than the creation (\<open>findings\<close> of a Test,
  15 minutes; \<open>adverse_event\<close> of a Dose, 30 minutes).  A history is in order when its other
  entries are sorted by timestamp and each of these two names occurs at most once;
  \<open>hist_upto\<close> bounds the other entries by the cursor as well.  \<open>name_ordered\<close>: the
  entries of every single name are sorted by timestamp.
\<close>

definition forward_dated :: "object_attribute \<Rightarrow> bool" where
  "forward_dated a \<longleftrightarrow> a_name a = ''findings'' \<or> a_name a = ''adverse_event''"

definition hist_ok :: "object_attribute list \<Rightarrow> bool" where
  "hist_ok attrs \<longleftrightarrow>
     sorted (map a_time (filter (\<lambda>a. \<not> forward_dated a) attrs))
     \<and> length (filter (\<lambda>a. a_name a = ''findings'') attrs) \<le> 1
     \<and> length (filter (\<lambda>a. a_name a = ''adverse_event'') attrs) \<le> 1"

definition hist_upto :: "isotime \<Rightarrow> object_attribute list \<Rightarrow> bool" where
  "hist_upto T attrs \<longleftrightarrow>
     hist_ok attrs \<and> list_all (\<lambda>a. forward_dated a \<or> a_time a \<le> T) attrs"

definition name_ordered :: "object_attribute list \<Rightarrow> bool" where
  "name_ordered attrs \<longleftrightarrow>
     (\<forall>n. sorted (map a_time (filter (\<lambda>a. a_name a = n) attrs)))"

text \<open>
  The invariant of a replay: the objects that were there before the trace are untouched,
  the ones the trace has made are in order up to the cursor, and the ids that the
  context will write to are ids of objects the trace has made.
\<close>

definition trace_inv :: "obj list \<Rightarrow> isotime \<Rightarrow> ctx \<Rightarrow> builder \<Rightarrow> bool" where
  "trace_inv old T c b \<longleftrightarrow>
     (\<exists>new. objects b = old @ new
        \<and> list_all (\<lambda>ob. hist_upto T (o_attributes ob)) new
        \<and> visit_id c \<in> o_id ` set new \<and> set (test_ids c) \<subseteq> o_id ` set new
        \<and> set_option (plan_id c) \<subseteq> o_id ` set new)"

text \<open>A builder whose next normal deviate is \<open>-2\<close>: the sampled step is ten minutes.\<close>

definition short_step_builder :: builder where
  "short_step_builder = example_builder\<lparr>np_random := (\<lambda>i. - 2)\<rparr>"

text \<open>
  The id that \<open>_create_test\<close> gives the \<open>k\<close>-th Test of trace \<open>tidx\<close>.  The invariant of a
  replay on object ids, with the type prefixes that the constructor sets: behind the
  objects \<open>old\<close> that were there before the trace, an object is a Test exactly when its id
  starts with \<open>t\<close>, and the Tests are the ones the context lists, numbered from 1.
\<close>

definition test_oid :: "nat \<Rightarrow> nat \<Rightarrow> string" where
  "test_oid tidx k = ''test-'' @ fmt_d 3 tidx @ ''-'' @ str_nat k"

definition tagged :: "obj list \<Rightarrow> bool" where
  "tagged os \<longleftrightarrow> list_all (\<lambda>ob. (o_type ob = ''Test'') = (hd (o_id ob) = CHR ''t'')) os"

definition tests_of :: "obj list \<Rightarrow> string list" where
  "tests_of os = map o_id (filter (\<lambda>ob. o_type ob = ''Test'') os)"

definition numbered :: "nat \<Rightarrow> string list \<Rightarrow> bool" where
  "numbered tidx tids \<longleftrightarrow> tids = map (test_oid tidx) [1..<Suc (length tids)]"

definition ids_inv :: "obj list \<Rightarrow> ctx \<Rightarrow> builder \<Rightarrow> bool" where
  "ids_inv old c b \<longleftrightarrow>
     (\<exists>new. objects b = old @ new
        \<and> type_prefix b = default_type_prefix
        \<and> tagged new \<and> tests_of new = test_ids c
        \<and> numbered (trace_index c) (test_ids c)
        \<and> visit_id c \<in> o_id ` set new
        \<and> set_option (plan_id c) \<subseteq> o_id ` set new)"

text \<open>What a FollowUpVisit at time \<open>ts\<close> does to one object.\<close>

definition reviewed :: "isotime \<Rightarrow> obj \<Rightarrow> obj" where
  "reviewed ts ob =
     (if o_type ob = ''Test''
      then ob\<lparr>o_attributes := o_attributes ob @
             [\<lparr>a_name = ''result_state'', a_time = ts, a_value = VStr ''Reviewed''\<rparr>]\<rparr>
      else ob)"

section \<open>The attribute store\<close>

lemma append_in_None: "append_in os obj_id a = None \<longleftrightarrow> obj_id \<notin> o_id ` set os"
  by (induction os) auto

lemma append_in_append:
  "append_in (xs @ ys) obj_id a =
     (case append_in xs obj_id a of Some xs' \<Rightarrow> Some (xs' @ ys)
      | None \<Rightarrow> map_option ((@) xs) (append_in ys obj_id a))"
  by (induction xs) (cases "append_in ys obj_id a"; auto split: option.splits)+

lemma append_attr_eq:
  "append_attr obj_id name time val b =
     (if obj_id \<in> o_id ` set (objects b)
      then (Inr (), b\<lparr>objects := add_entry obj_id \<lparr>a_name = name, a_time = time, a_value = val\<rparr> (objects b)\<rparr>)
      else (Inl (KeyError (''Object '' @ obj_id @ '' not found'')), b))"
proof (cases "append_in (rev (objects b)) obj_id \<lparr>a_name = name, a_time = time, a_value = val\<rparr>")
  case None
  then have "obj_id \<notin> o_id ` set (objects b)"
    by (simp add: append_in_None)
  with None show ?thesis
    by (simp add: append_attr_def)
next
  case (Some os')
  then have "obj_id \<in> o_id ` set (objects b)"
    using append_in_None[of "rev (objects b)" obj_id "\<lparr>a_name = name, a_time = time, a_value = val\<rparr>"]
    by auto
  with Some show ?thesis
    by (simp add: append_attr_def add_entry_def)
qed

lemma add_entry_snoc:
  "add_entry obj_id a (os @ [ob]) =
     (if o_id ob = obj_id then os @ [ob\<lparr>o_attributes := o_attributes ob @ [a]\<rparr>]
      else add_entry obj_id a os @ [ob])"
  by (auto simp: add_entry_def split: option.splits)

lemma add_entry_Nil [simp]: "add_entry obj_id a [] = []"
  by (simp add: add_entry_def)

lemma add_entry_append:
  "obj_id \<in> o_id ` set new \<Longrightarrow> add_entry obj_id a (old @ new) = old @ add_entry obj_id a new"
  using append_in_None[of "rev new" obj_id a]
  by (auto simp: add_entry_def append_in_append split: option.splits)

lemma add_entry_rel:
  "list_all2 (\<lambda>ob ob'. ob' = ob \<or> (o_id ob = obj_id \<and> ob' = ob\<lparr>o_attributes := o_attributes ob @ [a]\<rparr>))
     os (add_entry obj_id a os)"
proof (induction os rule: rev_induct)
  case Nil
  then show ?case by simp
next
  case (snoc ob os)
  then show ?case
    by (auto simp: add_entry_snoc list_all2_appendI list_all2_refl intro!: list_all2_appendI list.rel_refl )
qed

lemma get_obj_attr_unknown: "obj_id \<notin> o_id ` set os \<Longrightarrow> get_in os obj_id n = VNone"
  by (induction os) auto

lemma example_builder_constructed:
  "OCELBuilder example_lib default_config g = Inr example_builder"
  by (simp add: OCELBuilder_def post_init_def example_lib_def default_config_def
      example_builder_def)

section \<open>Dangling object references\<close>

text \<open>
  C4, as the code has it: against an id that no object carries, \<open>_append_attr\<close> raises
  \<open>KeyError\<close> and leaves the builder as it was, while \<open>_get_obj_attr\<close> raises nothing and
  returns \<open>None\<close>.
\<close>

theorem C4_unknown_object_id:
  assumes "obj_id \<notin> o_id ` set (objects b)"
  shows "append_attr obj_id name time val b =
           (Inl (KeyError (''Object '' @ obj_id @ '' not found'')), b)
         \<and> get_obj_attr b obj_id attr_name = VNone"
  using assms by (simp add: append_attr_eq get_obj_attr_def get_obj_attr_unknown)

theorem C4_unknown_object_id_witness:
  "''pat-999'' \<notin> o_id ` set (objects example_builder)
   \<and> append_attr ''pat-999'' ''status'' 0 (VStr ''Discharged'') example_builder =
       (Inl (KeyError (''Object '' @ ''pat-999'' @ '' not found'')), example_builder)
   \<and> get_obj_attr example_builder ''pat-999'' ''status'' = VNone"
proof -
  have h: "''pat-999'' \<notin> o_id ` set (objects example_builder)"
    by (simp add: example_builder_def)
  show ?thesis
    using h C4_unknown_object_id [OF h, of "''status''" 0 "VStr ''Discharged''" "''status''"]
    by simp
qed

text \<open>
  The claim as it was written wants the lookup to fail as well; on a builder without
  objects the lookup of any id returns \<open>None\<close>, which is a value and no error.
\<close>

theorem C4_lookup_counterexample:
  "''pat-999'' \<notin> o_id ` set (objects example_builder)
   \<and> get_obj_attr example_builder ''pat-999'' ''status'' = VNone"
  by (simp add: example_builder_def get_obj_attr_def)

section \<open>Determinism\<close>

lemma OCELBuilder_reseeds: "OCELBuilder lib cfg g = OCELBuilder lib cfg g'"
  by (simp add: OCELBuilder_def post_init_def)

text \<open>
  C10: the document of a full run does not depend on the state the generators are in
  when the run starts, because the constructor seeds both and starts every counter
  afresh.  So two runs with the same configuration and traces give the same result, also
  when the second starts where the first has left the generators.
\<close>

theorem C10_same_seed_same_document:
  "fst (generate lib cfg traces g1) = fst (generate lib cfg traces g2)
   \<and> fst (generate lib cfg traces (snd (generate lib cfg traces g1))) =
       fst (generate lib cfg traces g1)"
proof -
  have run: "fst (generate lib cfg traces g) = fst (generate lib cfg traces g')" for g g'
    using OCELBuilder_reseeds [of lib cfg g g']
    by (simp add: generate_def split: sum.splits prod.splits)
  show ?thesis
    using run [of g1 g2] run [of "snd (generate lib cfg traces g1)" g1] by simp
qed


section \<open>What one activity does\<close>

lemma snd_random_choice [simp]:
  "snd (random_choice xs b) = b\<lparr>py_random := (\<lambda>i. py_random b (Suc i))\<rparr>"
  by (simp add: random_choice_def random_draw_def)

lemma snd_random_randint [simp]:
  "snd (random_randint lo hi b) = b\<lparr>py_random := (\<lambda>i. py_random b (Suc i))\<rparr>"
  by (simp add: random_randint_def random_draw_def)

lemma snd_random_random [simp]:
  "snd (random_random b) = b\<lparr>py_random := (\<lambda>i. py_random b (Suc i))\<rparr>"
  by (simp add: random_random_def random_draw_def)

lemma new_event_id_eq [simp]:
  "new_event_id b = (''e'' @ str_nat (event_seq b), b\<lparr>event_seq := Suc (event_seq b)\<rparr>)"
  by (simp add: new_event_id_def uniq_def)

lemma snd_new_object_id [simp]:
  "snd (new_object_id ty b) =
     b\<lparr>obj_seq_by_type := (obj_seq_by_type b)(ty \<mapsto> Suc (fst (next_obj_suffix ty b)))\<rparr>"
  by (simp add: new_object_id_def next_obj_suffix_def numeral_2_eq_2 split: option.splits)

lemma fst_new_object_id_nonempty [simp]: "fst (new_object_id ty b) \<noteq> []"
  by (simp add: new_object_id_def split_def Let_def)

lemma ids_add_entry [simp]: "o_id ` set (add_entry obj_id a os) = o_id ` set os"
proof (induction os rule: rev_induct)
  case Nil
  then show ?case by simp
next
  case (snoc ob os)
  then show ?case by (auto simp: add_entry_snoc)
qed

lemma skel_add_entry [simp]: "skel (add_entry obj_id a os) = skel os"
  by (induction os rule: rev_induct) (auto simp: add_entry_snoc skel_def)

lemma skel_append [simp]: "skel (xs @ ys) = skel xs @ skel ys"
  by (simp add: skel_def)

lemma skel_mark_all [simp]: "skel (mark_all tids ts os) = skel os"
  by (induction tids arbitrary: os) (simp_all add: mark_all_def)

lemma ids_mark_all [simp]: "o_id ` set (mark_all tids ts os) = o_id ` set os"
  by (induction tids arbitrary: os) (simp_all add: mark_all_def)

lemma mark_reviewed_eq:
  "set tids \<subseteq> o_id ` set (objects b) \<Longrightarrow>
     mark_reviewed tids ts b = (Inr (), b\<lparr>objects := mark_all tids ts (objects b)\<rparr>)"
proof (induction tids arbitrary: b)
  case Nil
  then show ?case by (simp add: mark_all_def)
next
  case (Cons tid tids)
  then show ?case by (simp add: append_attr_eq mark_all_def)
qed

lemma of_type_Nil [simp]: "of_type ty [] = []"
  by (simp add: of_type_def)

lemma of_type_Cons [simp]:
  "of_type ty (p # sk) = (if snd p = ty then fst p # of_type ty sk else of_type ty sk)"
  by (simp add: of_type_def)

lemma of_type_append [simp]: "of_type ty (xs @ ys) = of_type ty xs @ of_type ty ys"
  by (simp add: of_type_def)

lemma skel_Nil [simp]: "skel [] = []"
  by (simp add: skel_def)

lemma skel_Cons [simp]: "skel (ob # os) = (o_id ob, o_type ob) # skel os"
  by (simp add: skel_def)

lemma snd_create_patient [simp]:
  "snd (create_patient tidx t b) =
     b\<lparr>obj_seq_by_type := (obj_seq_by_type b)(''Patient'' \<mapsto> Suc (fst (next_obj_suffix ''Patient'' b))),
       py_random := (\<lambda>i. py_random b (Suc (Suc i))),
       objects := objects b @ [made (create_patient tidx t b)]\<rparr>"
  by (simp add: create_patient_def made_def split_def Let_def)

lemma made_create_patient [simp]:
  "o_id (made (create_patient tidx t b)) = fst (create_patient tidx t b)"
  "o_type (made (create_patient tidx t b)) = ''Patient''"
  by (simp_all add: create_patient_def made_def split_def Let_def)

lemma snd_create_visit [simp]:
  "snd (create_visit tidx t b) =
     b\<lparr>obj_seq_by_type := (obj_seq_by_type b)(''Encounter'' \<mapsto> Suc (fst (next_obj_suffix ''Encounter'' b))),
       py_random := (\<lambda>i. py_random b (Suc i)),
       objects := objects b @ [made (create_visit tidx t b)]\<rparr>"
  by (simp add: create_visit_def made_def split_def Let_def)

lemma made_create_visit [simp]:
  "o_id (made (create_visit tidx t b)) = fst (create_visit tidx t b)"
  "o_type (made (create_visit tidx t b)) = ''Encounter''"
  by (simp_all add: create_visit_def made_def split_def Let_def)

lemma snd_create_test [simp]:
  "snd (create_test c t m b) =
     b\<lparr>py_random := (\<lambda>i. py_random b (Suc i)),
       objects := objects b @ [made (create_test c t m b)]\<rparr>"
  by (simp add: create_test_def made_def split_def Let_def)

lemma made_create_test [simp]:
  "o_id (made (create_test c t m b)) = fst (create_test c t m b)"
  "o_type (made (create_test c t m b)) = ''Test''"
  by (simp_all add: create_test_def made_def split_def Let_def)

lemma snd_create_diagnosis [simp]:
  "snd (create_diagnosis c t b) =
     b\<lparr>obj_seq_by_type := (obj_seq_by_type b)(''Diagnosis'' \<mapsto> Suc (fst (next_obj_suffix ''Diagnosis'' b))),
       py_random := (\<lambda>i. py_random b (Suc (Suc i))),
       objects := objects b @ [made (create_diagnosis c t b)]\<rparr>"
  by (simp add: create_diagnosis_def made_def split_def Let_def)

lemma made_create_diagnosis [simp]:
  "o_id (made (create_diagnosis c t b)) = fst (create_diagnosis c t b)"
  "o_type (made (create_diagnosis c t b)) = ''Diagnosis''"
  by (simp_all add: create_diagnosis_def made_def split_def Let_def)

lemma snd_create_plan [simp]:
  "snd (create_plan c t dx b) =
     b\<lparr>obj_seq_by_type := (obj_seq_by_type b)(''TreatmentPlan'' \<mapsto> Suc (fst (next_obj_suffix ''TreatmentPlan'' b))),
       py_random := (\<lambda>i. py_random b (Suc (Suc i))),
       objects := objects b @ [made (create_plan c t dx b)]\<rparr>"
  by (simp add: create_plan_def made_def split_def Let_def)

lemma made_create_plan [simp]:
  "o_id (made (create_plan c t dx b)) = fst (create_plan c t dx b)"
  "o_type (made (create_plan c t dx b)) = ''TreatmentPlan''"
  by (simp_all add: create_plan_def made_def split_def Let_def)

lemma fst_create_plan_nonempty [simp]: "fst (create_plan c t dx b) \<noteq> []"
  by (simp add: create_plan_def split_def Let_def)

lemma snd_create_medication [simp]:
  "snd (create_medication c t pl b) =
     b\<lparr>py_random := (\<lambda>i. py_random b (Suc (Suc (Suc i)))),
       objects := objects b @ [made (create_medication c t pl b)]\<rparr>"
  by (simp add: create_medication_def made_def split_def Let_def)

lemma made_create_medication [simp]:
  "o_id (made (create_medication c t pl b)) = fst (create_medication c t pl b)"
  "o_type (made (create_medication c t pl b)) = ''Dose''"
  by (simp_all add: create_medication_def made_def split_def Let_def)

lemma registration_summary:
  assumes "ctx_ok c b"
  shows "\<exists>c' b'. emit_event_registration c t b = (Inr c', b')
           \<and> step_summary ''OutpatientRegistration'' c t b c' b'"
  using assms
  by (simp add: emit_event_registration_def step_summary_def ctx_ok_def)

lemma imaging_summary:
  assumes "ctx_ok c b"
  shows "\<exists>c' b'. emit_event_imaging c t b = (Inr c', b')
           \<and> step_summary ''ImagingTest'' c t b c' b'"
  using assms
  by (auto simp add: emit_event_imaging_def step_summary_def ctx_ok_def Let_def split_def)

lemma foldl_reviewed:
  "foldl (\<lambda>ev test_id. ev\<lparr>e_relationships := e_relationships ev @
             [\<lparr>objectId = test_id, qualifier = q\<rparr>]\<rparr>) e tids =
     e\<lparr>e_relationships := e_relationships e @
          map (\<lambda>test_id. \<lparr>objectId = test_id, qualifier = q\<rparr>) tids\<rparr>"
  by (induction tids arbitrary: e) simp_all

lemma followup_summary:
  assumes "ctx_ok c b"
  shows "\<exists>c' b'. emit_event_followup c t b = (Inr c', b')
           \<and> step_summary ''FollowUpVisit'' c t b c' b'"
  using assms
  by (auto simp add: emit_event_followup_def step_summary_def ctx_ok_def mark_reviewed_eq Let_def split_def foldl_reviewed)

lemma mdt_summary:
  assumes "ctx_ok c b"
  shows "\<exists>c' b'. emit_event_mdt c t b = (Inr c', b')
           \<and> step_summary ''JointConsult'' c t b c' b'"
  using assms
  by (auto simp add: emit_event_mdt_def step_summary_def ctx_ok_def Let_def split_def opt_list_def split: option.splits)


lemma initial_consult_summary:
  assumes "ctx_ok c b"
  shows "\<exists>c' b'. emit_event_initial_consult c t b = (Inr c', b')
           \<and> step_summary ''InitialVisit'' c t b c' b'"
  using assms
  by (auto simp add: emit_event_initial_consult_def step_summary_def ctx_ok_def append_attr_eq Let_def split_def)

lemma lab_summary:
  assumes "ctx_ok c b"
  shows "\<exists>c' b'. emit_event_lab c t b = (Inr c', b')
           \<and> step_summary ''LabTest'' c t b c' b'"
  using assms
  by (auto simp add: emit_event_lab_def step_summary_def ctx_ok_def Let_def split_def)

lemma medication_summary:
  assumes "ctx_ok c b"
  shows "\<exists>c' b'. emit_event_medication c t b = (Inr c', b')
           \<and> step_summary ''MedicationTreatment'' c t b c' b'"
  using assms
  by (auto simp add: emit_event_medication_def step_summary_def ctx_ok_def
      append_attr_eq Let_def split_def opt_list_def
      split: option.splits)

lemma payment_summary:
  assumes "ctx_ok c b"
  shows "\<exists>c' b'. emit_event_payment c t b = (Inr c', b')
           \<and> step_summary ''Payment'' c t b c' b'"
  using assms
  by (auto simp add: emit_event_payment_def step_summary_def ctx_ok_def append_attr_eq Let_def split_def)

lemma discharge_summary:
  assumes "ctx_ok c b"
  shows "\<exists>c' b'. emit_event_discharge c t b = (Inr c', b')
           \<and> step_summary ''Discharge'' c t b c' b'"
  using assms
  by (auto simp add: emit_event_discharge_def step_summary_def ctx_ok_def append_attr_eq Let_def split_def)

lemma known_iff:
  "known act \<longleftrightarrow> act = ''OutpatientRegistration'' \<or> act = ''InitialVisit''
     \<or> act = ''ImagingTest'' \<or> act = ''LabTest'' \<or> act = ''FollowUpVisit''
     \<or> act = ''JointConsult'' \<or> act = ''MedicationTreatment'' \<or> act = ''Payment''
     \<or> act = ''Discharge''"
  unfolding known_def activity_vocabulary_def set_simps insert_iff empty_iff by simp

lemma known_cases:
  assumes "known act"
  obtains "act = ''OutpatientRegistration''" | "act = ''InitialVisit''"
    | "act = ''ImagingTest''" | "act = ''LabTest''" | "act = ''FollowUpVisit''"
    | "act = ''JointConsult''" | "act = ''MedicationTreatment''" | "act = ''Payment''"
    | "act = ''Discharge''"
  using assms unfolding known_iff by (elim disjE) blast+

lemma dispatch_summary:
  assumes "known act" and "ctx_ok c b"
  shows "\<exists>c' b'. dispatch act c t b = (Inr c', b') \<and> step_summary act c t b c' b'"
proof -
  from assms(1) show ?thesis
  proof (cases rule: known_cases)
    case 1
    then show ?thesis using registration_summary [OF assms(2), of t] by (simp add: dispatch_def)
  next
    case 2
    then show ?thesis using initial_consult_summary [OF assms(2), of t] by (simp add: dispatch_def)
  next
    case 3
    then show ?thesis using imaging_summary [OF assms(2), of t] by (simp add: dispatch_def)
  next
    case 4
    then show ?thesis using lab_summary [OF assms(2), of t] by (simp add: dispatch_def)
  next
    case 5
    then show ?thesis using followup_summary [OF assms(2), of t] by (simp add: dispatch_def)
  next
    case 6
    then show ?thesis using mdt_summary [OF assms(2), of t] by (simp add: dispatch_def)
  next
    case 7
    then show ?thesis using medication_summary [OF assms(2), of t] by (simp add: dispatch_def)
  next
    case 8
    then show ?thesis using payment_summary [OF assms(2), of t] by (simp add: dispatch_def)
  next
    case 9
    then show ?thesis using discharge_summary [OF assms(2), of t] by (simp add: dispatch_def)
  qed
qed

lemma dispatch_unknown:
  "\<not> known act \<Longrightarrow> dispatch act c t b = (Inl (ValueError (''Unknown activity label: '' @ act)), b)"
  by (auto simp: known_def activity_vocabulary_def dispatch_def)


lemma opt_list_Cons: "opt_list y = x # zs \<Longrightarrow> y = Some x"
  by (cases y) (simp_all add: opt_list_def)

lemma replay_post_Nil: "ctx_ok c b \<Longrightarrow> replay_post [] c t step b c b"
  by (simp add: replay_post_def)

lemma replay_post_Cons:
  assumes s: "step_summary a c t b c1 b1"
    and r: "replay_post acts c1 (t + step) step b1 c' b'"
  shows "replay_post (a # acts) c t step b c' b'"
proof -
  from s obtain e cr1 where
    e: "events b1 = events b @ [e]" "e_time e = iso t"
       "e_type e = (if a = ''JointConsult'' then ''MDT'' else a)"
       "\<lparr>objectId = patient_id c, qualifier = ''subject''\<rparr> \<in> set (e_relationships e)"
       "\<forall>r\<in>set (e_relationships e).
          (qualifier r = ''diagnosis'' \<longrightarrow> diagnosis_id c1 = Some (objectId r))
          \<and> (qualifier r = ''plan'' \<longrightarrow> plan_id c1 = Some (objectId r))"
    and cr1: "skel (objects b1) = skel (objects b) @ cr1"
       "test_ids c1 = test_ids c @ of_type ''Test'' cr1"
       "medication_ids c1 = medication_ids c @ of_type ''Dose'' cr1"
       "opt_list (diagnosis_id c1) = opt_list (diagnosis_id c) @ of_type ''Diagnosis'' cr1"
       "opt_list (plan_id c1) = opt_list (plan_id c) @ of_type ''TreatmentPlan'' cr1"
       "of_type ''Patient'' cr1 = []" "of_type ''Encounter'' cr1 = []"
       "length (of_type ''Test'' cr1) = (if a = ''ImagingTest'' \<or> a = ''LabTest'' then 1 else 0)"
       "length (of_type ''Dose'' cr1) = (if a = ''MedicationTreatment'' then 1 else 0)"
    and dp1: "if a = ''JointConsult'' \<or> a = ''MedicationTreatment''
         then diagnosis_id c1 \<noteq> None \<and> plan_id c1 \<noteq> None
         else diagnosis_id c1 = diagnosis_id c \<and> plan_id c1 = plan_id c"
    and ne1: "plan_id c1 = plan_id c \<or> plan_id c1 \<noteq> Some []"
    and k1: "patient_id c1 = patient_id c" "visit_id c1 = visit_id c"
       "trace_index c1 = trace_index c" "start_time c1 = start_time c"
    and f1: "object_relationships b1 = object_relationships b" "o2o_seq b1 = o2o_seq b"
       "base_time b1 = base_time b"
       "event_step_mean_minutes b1 = event_step_mean_minutes b"
       "event_step_std_minutes b1 = event_step_std_minutes b"
    unfolding step_summary_def by blast
  from r obtain evs cr where
    evs: "events b' = events b1 @ evs"
       "map e_time evs = map (\<lambda>k. iso (t + step + int k * step)) [0..<length acts]"
       "map e_type evs = map (\<lambda>a. if a = ''JointConsult'' then ''MDT'' else a) acts"
       "\<forall>e\<in>set evs.
          \<lparr>objectId = patient_id c1, qualifier = ''subject''\<rparr> \<in> set (e_relationships e)
          \<and> (\<forall>r\<in>set (e_relationships e).
                (qualifier r = ''diagnosis'' \<longrightarrow> diagnosis_id c' = Some (objectId r))
                \<and> (qualifier r = ''plan'' \<longrightarrow> plan_id c' = Some (objectId r)))"
    and cr: "skel (objects b') = skel (objects b1) @ cr"
       "test_ids c' = test_ids c1 @ of_type ''Test'' cr"
       "medication_ids c' = medication_ids c1 @ of_type ''Dose'' cr"
       "opt_list (diagnosis_id c') = opt_list (diagnosis_id c1) @ of_type ''Diagnosis'' cr"
       "opt_list (plan_id c') = opt_list (plan_id c1) @ of_type ''TreatmentPlan'' cr"
       "of_type ''Patient'' cr = []" "of_type ''Encounter'' cr = []"
       "length (of_type ''Test'' cr) =
          length (filter (\<lambda>a. a = ''ImagingTest'' \<or> a = ''LabTest'') acts)"
       "length (of_type ''Dose'' cr) = length (filter (\<lambda>a. a = ''MedicationTreatment'') acts)"
    and dp: "if \<exists>a\<in>set acts. a = ''JointConsult'' \<or> a = ''MedicationTreatment''
         then diagnosis_id c' \<noteq> None \<and> plan_id c' \<noteq> None
         else diagnosis_id c' = diagnosis_id c1 \<and> plan_id c' = plan_id c1"
    and ne: "plan_id c' = plan_id c1 \<or> plan_id c' \<noteq> Some []"
    and k: "patient_id c' = patient_id c1" "visit_id c' = visit_id c1"
       "trace_index c' = trace_index c1" "start_time c' = start_time c1"
    and f: "object_relationships b' = object_relationships b1" "o2o_seq b' = o2o_seq b1"
       "base_time b' = base_time b1"
       "event_step_mean_minutes b' = event_step_mean_minutes b1"
       "event_step_std_minutes b' = event_step_std_minutes b1"
    and ok: "ctx_ok c' b'"
    unfolding replay_post_def by blast
  have times: "map e_time (e # evs) = map (\<lambda>k. iso (t + int k * step)) [0..<length (a # acts)]"
    using e(2) evs(2) by (simp add: map_upt_Suc algebra_simps del: upt_Suc)
  have types: "map e_type (e # evs) = map (\<lambda>a. if a = ''JointConsult'' then ''MDT'' else a) (a # acts)"
    using e(3) evs(3) by simp
  have keep_dx: "diagnosis_id c' = Some x" if "diagnosis_id c1 = Some x" for x
    using cr(4) that by (auto simp: opt_list_def intro: opt_list_Cons)
  have keep_pl: "plan_id c' = Some x" if "plan_id c1 = Some x" for x
    using cr(5) that by (auto simp: opt_list_def intro: opt_list_Cons)
  have rels: "\<forall>e\<in>set (e # evs).
          \<lparr>objectId = patient_id c, qualifier = ''subject''\<rparr> \<in> set (e_relationships e)
          \<and> (\<forall>r\<in>set (e_relationships e).
                (qualifier r = ''diagnosis'' \<longrightarrow> diagnosis_id c' = Some (objectId r))
                \<and> (qualifier r = ''plan'' \<longrightarrow> plan_id c' = Some (objectId r)))"
    using e(4,5) evs(4) k1(1) keep_dx keep_pl by auto
  have ev: "\<exists>evs. events b' = events b @ evs
        \<and> map e_time evs = map (\<lambda>k. iso (t + int k * step)) [0..<length (a # acts)]
        \<and> map e_type evs = map (\<lambda>a. if a = ''JointConsult'' then ''MDT'' else a) (a # acts)
        \<and> (\<forall>e\<in>set evs.
              \<lparr>objectId = patient_id c, qualifier = ''subject''\<rparr> \<in> set (e_relationships e)
              \<and> (\<forall>r\<in>set (e_relationships e).
                    (qualifier r = ''diagnosis'' \<longrightarrow> diagnosis_id c' = Some (objectId r))
                    \<and> (qualifier r = ''plan'' \<longrightarrow> plan_id c' = Some (objectId r))))"
    using times types rels e(1) evs(1) by (intro exI [of _ "e # evs"]) simp
  have sk: "\<exists>cr. skel (objects b') = skel (objects b) @ cr
        \<and> test_ids c' = test_ids c @ of_type ''Test'' cr
        \<and> medication_ids c' = medication_ids c @ of_type ''Dose'' cr
        \<and> opt_list (diagnosis_id c') = opt_list (diagnosis_id c) @ of_type ''Diagnosis'' cr
        \<and> opt_list (plan_id c') = opt_list (plan_id c) @ of_type ''TreatmentPlan'' cr
        \<and> of_type ''Patient'' cr = [] \<and> of_type ''Encounter'' cr = []
        \<and> length (of_type ''Test'' cr) =
              length (filter (\<lambda>a. a = ''ImagingTest'' \<or> a = ''LabTest'') (a # acts))
        \<and> length (of_type ''Dose'' cr) =
              length (filter (\<lambda>a. a = ''MedicationTreatment'') (a # acts))"
    using cr1 cr by (intro exI [of _ "cr1 @ cr"]) simp
  have dpc: "if \<exists>x\<in>set (a # acts). x = ''JointConsult'' \<or> x = ''MedicationTreatment''
         then diagnosis_id c' \<noteq> None \<and> plan_id c' \<noteq> None
         else diagnosis_id c' = diagnosis_id c \<and> plan_id c' = plan_id c"
  proof (cases "a = ''JointConsult'' \<or> a = ''MedicationTreatment''")
    case True
    with dp1 obtain x y where "diagnosis_id c1 = Some x" "plan_id c1 = Some y"
      by auto
    with keep_dx keep_pl True show ?thesis by auto
  next
    case False
    with dp1 dp show ?thesis by auto
  qed
  have nec: "plan_id c' = plan_id c \<or> plan_id c' \<noteq> Some []"
    using ne ne1 by auto
  show ?thesis
    unfolding replay_post_def
    using ev sk dpc nec k k1 f f1 ok by simp
qed

lemma replay_summary:
  assumes "\<forall>a\<in>set acts. known a" and "ctx_ok c b"
  shows "\<exists>c' b'. replay acts c t step b = (Inr c', b') \<and> replay_post acts c t step b c' b'"
  using assms
proof (induction acts arbitrary: c t b)
  case Nil
  then show ?case by (simp add: replay_post_Nil)
next
  case (Cons a acts)
  from Cons.prems obtain c1 b1 where
    d: "dispatch a c t b = (Inr c1, b1)" and s: "step_summary a c t b c1 b1"
    using dispatch_summary [of a c b t] by auto
  from s have "ctx_ok c1 b1"
    by (simp add: step_summary_def)
  with Cons.IH [of c1 b1 "t + step"] Cons.prems obtain c' b' where
    r: "replay acts c1 (t + step) step b1 = (Inr c', b')"
    and p: "replay_post acts c1 (t + step) step b1 c' b'"
    by auto
  from d r replay_post_Cons [OF s p] show ?case
    by simp
qed

section \<open>What one trace does\<close>

lemma created_of_skel:
  "created_of ty b b' = of_type ty (drop (length (objects b)) (skel (objects b')))"
  by (simp add: created_of_def of_type_def skel_def drop_map filter_map comp_def)

lemma length_skel [simp]: "length (skel os) = length os"
  by (simp add: skel_def)

lemma new_rel_fold:
  "foldl (\<lambda>b' med_id. new_rel rtype time src med_id b') b meds =
     b\<lparr>o2o_seq := o2o_seq b + length meds,
       object_relationships := object_relationships b @
         map (\<lambda>(k, m). \<lparr>r_id = ''or'' @ str_nat k, r_type = rtype, r_time = iso time,
                          sourceObject = src, targetObject = m, r_attributes = []\<rparr>)
           (enumerate (o2o_seq b) meds)\<rparr>"
  by (induction meds arbitrary: b) (simp_all add: new_rel_def)

lemma new_rel_fields [simp]:
  "events (new_rel rtype time src tgt b) = events b"
  "event_step_std_minutes (new_rel rtype time src tgt b) = event_step_std_minutes b"
  "objects (new_rel rtype time src tgt b) = objects b"
  "o2o_seq (new_rel rtype time src tgt b) = Suc (o2o_seq b)"
  "object_relationships (new_rel rtype time src tgt b) =
     object_relationships b @
       [\<lparr>r_id = ''or'' @ str_nat (o2o_seq b), r_type = rtype, r_time = iso time,
         sourceObject = src, targetObject = tgt, r_attributes = []\<rparr>]"
  by (simp_all add: new_rel_def)

lemma emit_o2o_frame [simp]:
  "events (emit_o2o c b) = events b" "objects (emit_o2o c b) = objects b"
  "event_step_std_minutes (emit_o2o c b) = event_step_std_minutes b"
  by (simp_all add: emit_o2o_def new_rel_fold Let_def split: option.splits)


lemma replay_append:
  "replay (xs @ ys) c t step b =
     (case replay xs c t step b of
        (Inl err, b') \<Rightarrow> (Inl err, b')
      | (Inr c', b') \<Rightarrow> replay ys c' (t + int (length xs) * step) step b')"
proof (induction xs arbitrary: c t b)
  case Nil
  then show ?case by simp
next
  case (Cons a xs)
  show ?case
  proof (cases "dispatch a c t b")
    case (Pair r b1)
    then show ?thesis
      by (cases r) (auto simp: Cons.IH algebra_simps split: prod.splits sum.splits)
  qed
qed

lemma add_single_trace_eq:
  assumes "0 \<le> event_step_std_minutes b"
  shows "add_single_trace tidx acts b =
     (case replay acts (fst (trace_init b tidx)) (trace_start b tidx) (trace_step b)
             (snd (trace_init b tidx)) of
        (Inl err, b3) \<Rightarrow> (Inl err, b3)
      | (Inr c', b3) \<Rightarrow> (Inr (), emit_o2o c' b3))"
  using assms
  by (simp add: add_single_trace_def np_random_normal_def Let_def split_def trace_init_def
      trace_start_def trace_step_def)

lemma add_single_trace_bad_scale:
  "event_step_std_minutes b < 0 \<Longrightarrow>
     add_single_trace tidx acts b = (Inl (ValueError ''scale < 0''), b)"
  by (simp add: add_single_trace_def np_random_normal_def)

lemma trace_init_facts:
  "ctx_ok (fst (trace_init b tidx)) (snd (trace_init b tidx))"
  "skel (objects (snd (trace_init b tidx))) =
     skel (objects b) @ [(patient_id (fst (trace_init b tidx)), ''Patient''),
                         (visit_id (fst (trace_init b tidx)), ''Encounter'')]"
  "events (snd (trace_init b tidx)) = events b"
  "object_relationships (snd (trace_init b tidx)) = object_relationships b"
  "o2o_seq (snd (trace_init b tidx)) = o2o_seq b"
  "base_time (snd (trace_init b tidx)) = base_time b"
  "event_step_mean_minutes (snd (trace_init b tidx)) = event_step_mean_minutes b"
  "event_step_std_minutes (snd (trace_init b tidx)) = event_step_std_minutes b"
  "trace_index (fst (trace_init b tidx)) = tidx"
  "start_time (fst (trace_init b tidx)) = trace_start b tidx"
  "diagnosis_id (fst (trace_init b tidx)) = None"
  "plan_id (fst (trace_init b tidx)) = None"
  "medication_ids (fst (trace_init b tidx)) = []"
  "test_ids (fst (trace_init b tidx)) = []"
  by (simp_all add: trace_init_def init_trace_objects_def split_def Let_def ctx_ok_def)

lemma add_single_trace_summary:
  assumes "\<forall>a\<in>set acts. known a" and "0 \<le> event_step_std_minutes b"
  shows "\<exists>c0 b0 c' b'.
           replay acts c0 (trace_start b tidx) (trace_step b) b0 = (Inr c', b')
           \<and> replay_post acts c0 (trace_start b tidx) (trace_step b) b0 c' b'
           \<and> add_single_trace tidx acts b = (Inr (), emit_o2o c' b')
           \<and> skel (objects b0) = skel (objects b) @ [(patient_id c0, ''Patient''), (visit_id c0, ''Encounter'')]
           \<and> events b0 = events b \<and> object_relationships b0 = object_relationships b
           \<and> o2o_seq b0 = o2o_seq b \<and> base_time b0 = base_time b
           \<and> event_step_mean_minutes b0 = event_step_mean_minutes b
           \<and> event_step_std_minutes b0 = event_step_std_minutes b
           \<and> trace_index c0 = tidx \<and> start_time c0 = trace_start b tidx
           \<and> diagnosis_id c0 = None \<and> plan_id c0 = None
           \<and> medication_ids c0 = [] \<and> test_ids c0 = []"
proof -
  from replay_summary [OF assms(1) trace_init_facts(1)] obtain c' b' where
    r: "replay acts (fst (trace_init b tidx)) (trace_start b tidx) (trace_step b)
          (snd (trace_init b tidx)) = (Inr c', b')"
    and p: "replay_post acts (fst (trace_init b tidx)) (trace_start b tidx) (trace_step b)
          (snd (trace_init b tidx)) c' b'"
    by blast
  have a: "add_single_trace tidx acts b = (Inr (), emit_o2o c' b')"
    using r by (simp add: add_single_trace_eq [OF assms(2)])
  from r p a trace_init_facts [of b tidx] show ?thesis by blast
qed

lemma created_in_trace:
  assumes "skel (objects b') = skel (objects b0) @ cr"
    and "skel (objects b0) = skel (objects b) @ [(p, ''Patient''), (v, ''Encounter'')]"
  shows "created_of ty b (emit_o2o c b') = of_type ty ([(p, ''Patient''), (v, ''Encounter'')] @ cr)"
proof -
  have "length (skel (objects b)) = length (objects b)"
    by simp
  then have "drop (length (objects b)) (skel (objects b) @ [(p, ''Patient''), (v, ''Encounter'')] @ cr)
      = [(p, ''Patient''), (v, ''Encounter'')] @ cr"
    by (metis append_eq_conv_conj)
  with assms show ?thesis
    by (simp add: created_of_skel)
qed

section \<open>Timestamps within a trace\<close>



lemma round_half_even_ge: "\<lfloor>x\<rfloor> \<le> round_half_even x"
  by (simp add: round_half_even_def Let_def)

lemma trace_step_ge: "600000000 \<le> trace_step b"
proof -
  let ?m = "max 10 (event_step_mean_minutes b + event_step_std_minutes b * np_random b 0)"
  have "(600000000 :: rat) \<le> ?m * 60000000"
    by simp
  then have "(600000000 :: int) \<le> \<lfloor>?m * 60000000\<rfloor>"
    by (simp add: le_floor_iff)
  also have "\<dots> \<le> round_half_even (?m * 60000000)"
    by (rule round_half_even_ge)
  finally show ?thesis
    by (simp add: trace_step_def timedelta_minutes_def)
qed







lemma add_traces_single: "snd (add_traces [trace] b) = snd (add_single_trace 1 trace b)"
  by (simp add: add_traces_def split: prod.splits sum.splits)


section \<open>The subject of every event\<close>

text \<open>
  C9: every event of a trace of known labels carries a \<open>subject\<close> relationship to the one
  Patient object that the trace has created.
\<close>

theorem C9_subject_relationship:
  assumes "\<forall>a\<in>set acts. known a" and "0 \<le> event_step_std_minutes b"
  shows "\<exists>pat. created_of ''Patient'' b (snd (add_single_trace tidx acts b)) = [pat]
     \<and> length (emitted b (snd (add_single_trace tidx acts b))) = length acts
     \<and> list_all (\<lambda>e. \<lparr>objectId = pat, qualifier = ''subject''\<rparr> \<in> set (e_relationships e))
          (emitted b (snd (add_single_trace tidx acts b)))"
proof -
  from add_single_trace_summary [OF assms, of tidx] obtain c0 b0 c' b' where
    p: "replay_post acts c0 (trace_start b tidx) (trace_step b) b0 c' b'"
    and a: "add_single_trace tidx acts b = (Inr (), emit_o2o c' b')"
    and i: "events b0 = events b"
      "skel (objects b0) = skel (objects b) @ [(patient_id c0, ''Patient''), (visit_id c0, ''Encounter'')]"
    by blast
  from p obtain evs cr where
    evs: "events b' = events b0 @ evs"
      "map e_time evs = map (\<lambda>k. iso (trace_start b tidx + int k * trace_step b)) [0..<length acts]"
      "\<forall>e\<in>set evs. \<lparr>objectId = patient_id c0, qualifier = ''subject''\<rparr> \<in> set (e_relationships e)"
    and cr: "skel (objects b') = skel (objects b0) @ cr" "of_type ''Patient'' cr = []"
    unfolding replay_post_def by blast
  have em: "emitted b (snd (add_single_trace tidx acts b)) = evs"
    using a i(1) evs(1) by (simp add: emitted_def)
  have len: "length evs = length acts"
    using arg_cong [OF evs(2), of length] by simp
  have pat: "created_of ''Patient'' b (snd (add_single_trace tidx acts b)) = [patient_id c0]"
    using a created_in_trace [OF cr(1) i(2), of "''Patient''" c'] cr(2) by simp
  show ?thesis
    using em len pat evs(3) by (simp add: list_all_iff)
qed

theorem C9_subject_relationship_witness:
  "known ''Payment'' \<and> known ''Discharge'' \<and> 0 \<le> event_step_std_minutes example_builder
   \<and> length (emitted example_builder
        (snd (add_single_trace 1 [''Payment'', ''Discharge''] example_builder))) = 2"
proof -
  have h: "\<forall>a\<in>set [''Payment'', ''Discharge'']. known a"
    by (simp add: known_iff)
  have s: "0 \<le> event_step_std_minutes example_builder"
    by (simp add: example_builder_def)
  from C9_subject_relationship [OF h s, of 1] h s show ?thesis
    by auto
qed

section \<open>Diagnosis and treatment plan\<close>

lemma created_grows:
  assumes "\<forall>a\<in>set (xs @ ys). known a" and "0 \<le> event_step_std_minutes b"
  shows "\<exists>more. created_of ty b (snd (add_single_trace tidx (xs @ ys) b)) =
           created_of ty b (snd (add_single_trace tidx xs b)) @ more"
proof -
  let ?c0 = "fst (trace_init b tidx)" and ?b0 = "snd (trace_init b tidx)"
  let ?t = "trace_start b tidx" and ?s = "trace_step b"
  from assms(1) have kx: "\<forall>a\<in>set xs. known a" and ky: "\<forall>a\<in>set ys. known a"
    by simp_all
  from replay_summary [OF kx trace_init_facts(1), of b tidx ?t ?s] obtain c1 b1 where
    r1: "replay xs ?c0 ?t ?s ?b0 = (Inr c1, b1)" and p1: "replay_post xs ?c0 ?t ?s ?b0 c1 b1"
    by blast
  from p1 obtain cr1 where
    s1: "skel (objects b1) = skel (objects ?b0) @ cr1" and ok1: "ctx_ok c1 b1"
    unfolding replay_post_def by blast
  from replay_summary [OF ky ok1, of "?t + int (length xs) * ?s" ?s] obtain c2 b2 where
    r2: "replay ys c1 (?t + int (length xs) * ?s) ?s b1 = (Inr c2, b2)"
    and p2: "replay_post ys c1 (?t + int (length xs) * ?s) ?s b1 c2 b2"
    by blast
  from p2 obtain cr2 where
    s2: "skel (objects b2) = skel (objects b1) @ cr2"
    unfolding replay_post_def by blast
  have a1: "add_single_trace tidx xs b = (Inr (), emit_o2o c1 b1)"
    using r1 by (simp add: add_single_trace_eq [OF assms(2)])
  have a2: "add_single_trace tidx (xs @ ys) b = (Inr (), emit_o2o c2 b2)"
    using r1 r2 by (simp add: add_single_trace_eq [OF assms(2)] replay_append)
  have s12: "skel (objects b2) = skel (objects ?b0) @ cr1 @ cr2"
    using s1 s2 by simp
  show ?thesis
    using a1 a2 created_in_trace [OF s1 trace_init_facts(2), of ty c1]
      created_in_trace [OF s12 trace_init_facts(2), of ty c2]
    by simp
qed

lemma diagnosis_plan_once:
  assumes "\<forall>a\<in>set acts. known a" and "0 \<le> event_step_std_minutes b"
  shows "length (created_of ''Diagnosis'' b (snd (add_single_trace tidx acts b))) =
           (if \<exists>a\<in>set acts. a = ''JointConsult'' \<or> a = ''MedicationTreatment'' then 1 else 0)
     \<and> length (created_of ''TreatmentPlan'' b (snd (add_single_trace tidx acts b))) =
           (if \<exists>a\<in>set acts. a = ''JointConsult'' \<or> a = ''MedicationTreatment'' then 1 else 0)
     \<and> list_all (\<lambda>e. list_all (\<lambda>r.
            (qualifier r = ''diagnosis'' \<longrightarrow>
               created_of ''Diagnosis'' b (snd (add_single_trace tidx acts b)) = [objectId r])
            \<and> (qualifier r = ''plan'' \<longrightarrow>
               created_of ''TreatmentPlan'' b (snd (add_single_trace tidx acts b)) = [objectId r]))
          (e_relationships e))
        (emitted b (snd (add_single_trace tidx acts b)))"
proof -
  from add_single_trace_summary [OF assms, of tidx] obtain c0 b0 c' b' where
    p: "replay_post acts c0 (trace_start b tidx) (trace_step b) b0 c' b'"
    and a: "add_single_trace tidx acts b = (Inr (), emit_o2o c' b')"
    and i: "events b0 = events b"
      "skel (objects b0) = skel (objects b) @ [(patient_id c0, ''Patient''), (visit_id c0, ''Encounter'')]"
      "diagnosis_id c0 = None" "plan_id c0 = None"
    by blast
  from p obtain evs cr where
    evs: "events b' = events b0 @ evs"
      "\<forall>e\<in>set evs. \<forall>r\<in>set (e_relationships e).
          (qualifier r = ''diagnosis'' \<longrightarrow> diagnosis_id c' = Some (objectId r))
          \<and> (qualifier r = ''plan'' \<longrightarrow> plan_id c' = Some (objectId r))"
    and cr: "skel (objects b') = skel (objects b0) @ cr"
      "opt_list (diagnosis_id c') = opt_list (diagnosis_id c0) @ of_type ''Diagnosis'' cr"
      "opt_list (plan_id c') = opt_list (plan_id c0) @ of_type ''TreatmentPlan'' cr"
    and dp: "if \<exists>a\<in>set acts. a = ''JointConsult'' \<or> a = ''MedicationTreatment''
         then diagnosis_id c' \<noteq> None \<and> plan_id c' \<noteq> None
         else diagnosis_id c' = diagnosis_id c0 \<and> plan_id c' = plan_id c0"
    unfolding replay_post_def by blast
  have em: "emitted b (snd (add_single_trace tidx acts b)) = evs"
    using a i(1) evs(1) by (simp add: emitted_def)
  have dx: "created_of ''Diagnosis'' b (snd (add_single_trace tidx acts b)) = opt_list (diagnosis_id c')"
    using a created_in_trace [OF cr(1) i(2), of "''Diagnosis''" c'] cr(2) i(3)
    by (simp add: opt_list_def)
  have pl: "created_of ''TreatmentPlan'' b (snd (add_single_trace tidx acts b)) = opt_list (plan_id c')"
    using a created_in_trace [OF cr(1) i(2), of "''TreatmentPlan''" c'] cr(3) i(4)
    by (simp add: opt_list_def)
  have n: "length (opt_list (diagnosis_id c')) =
             (if \<exists>a\<in>set acts. a = ''JointConsult'' \<or> a = ''MedicationTreatment'' then 1 else 0)"
    "length (opt_list (plan_id c')) =
             (if \<exists>a\<in>set acts. a = ''JointConsult'' \<or> a = ''MedicationTreatment'' then 1 else 0)"
    using dp i(3,4) by (auto simp: opt_list_def split: if_splits)
  have r: "list_all (\<lambda>e. list_all (\<lambda>r.
            (qualifier r = ''diagnosis'' \<longrightarrow> opt_list (diagnosis_id c') = [objectId r])
            \<and> (qualifier r = ''plan'' \<longrightarrow> opt_list (plan_id c') = [objectId r]))
          (e_relationships e)) evs"
    using evs(2) by (auto simp: list_all_iff opt_list_def)
  show ?thesis
    unfolding em dx pl using n r by simp
qed

text \<open>
  C7: a trace of known labels creates one Diagnosis and one TreatmentPlan if it holds a
  JointConsult or a MedicationTreatment and none otherwise, and every \<open>diagnosis\<close> and
  \<open>plan\<close> relationship of its events points to that one object.  The two objects are
  made by the first JointConsult or MedicationTreatment: the trace cut off before it has
  made neither, and the trace cut off behind it has made the two that the whole trace
  ends with.
\<close>

theorem C7_one_diagnosis_one_plan:
  assumes "\<forall>a\<in>set acts. known a" and "0 \<le> event_step_std_minutes b"
  shows "length (created_of ''Diagnosis'' b (snd (add_single_trace tidx acts b))) =
           (if \<exists>a\<in>set acts. a = ''JointConsult'' \<or> a = ''MedicationTreatment'' then 1 else 0)
     \<and> length (created_of ''TreatmentPlan'' b (snd (add_single_trace tidx acts b))) =
           (if \<exists>a\<in>set acts. a = ''JointConsult'' \<or> a = ''MedicationTreatment'' then 1 else 0)
     \<and> list_all (\<lambda>e. list_all (\<lambda>r.
            (qualifier r = ''diagnosis'' \<longrightarrow>
               created_of ''Diagnosis'' b (snd (add_single_trace tidx acts b)) = [objectId r])
            \<and> (qualifier r = ''plan'' \<longrightarrow>
               created_of ''TreatmentPlan'' b (snd (add_single_trace tidx acts b)) = [objectId r]))
          (e_relationships e))
        (emitted b (snd (add_single_trace tidx acts b)))
     \<and> (\<forall>pre a post.
           acts = pre @ a # post \<and> (a = ''JointConsult'' \<or> a = ''MedicationTreatment'')
           \<and> (\<forall>x\<in>set pre. x \<noteq> ''JointConsult'' \<and> x \<noteq> ''MedicationTreatment'') \<longrightarrow>
           created_of ''Diagnosis'' b (snd (add_single_trace tidx pre b)) = []
           \<and> created_of ''TreatmentPlan'' b (snd (add_single_trace tidx pre b)) = []
           \<and> created_of ''Diagnosis'' b (snd (add_single_trace tidx (pre @ [a]) b)) =
               created_of ''Diagnosis'' b (snd (add_single_trace tidx acts b))
           \<and> created_of ''TreatmentPlan'' b (snd (add_single_trace tidx (pre @ [a]) b)) =
               created_of ''TreatmentPlan'' b (snd (add_single_trace tidx acts b)))"
proof -
  have first: "created_of ''Diagnosis'' b (snd (add_single_trace tidx pre b)) = []
           \<and> created_of ''TreatmentPlan'' b (snd (add_single_trace tidx pre b)) = []
           \<and> created_of ''Diagnosis'' b (snd (add_single_trace tidx (pre @ [a]) b)) =
               created_of ''Diagnosis'' b (snd (add_single_trace tidx acts b))
           \<and> created_of ''TreatmentPlan'' b (snd (add_single_trace tidx (pre @ [a]) b)) =
               created_of ''TreatmentPlan'' b (snd (add_single_trace tidx acts b))"
    if d: "acts = pre @ a # post" and a: "a = ''JointConsult'' \<or> a = ''MedicationTreatment''"
      and n: "\<forall>x\<in>set pre. x \<noteq> ''JointConsult'' \<and> x \<noteq> ''MedicationTreatment''"
    for pre a post
  proof -
    from assms(1) d have kp: "\<forall>x\<in>set pre. known x" and ka: "\<forall>x\<in>set (pre @ [a]). known x"
      and kw: "\<forall>x\<in>set ((pre @ [a]) @ post). known x"
      by simp_all
    have w: "acts = (pre @ [a]) @ post"
      using d by simp
    from diagnosis_plan_once [OF kp assms(2), of tidx] n
    have p0: "created_of ''Diagnosis'' b (snd (add_single_trace tidx pre b)) = []"
      "created_of ''TreatmentPlan'' b (snd (add_single_trace tidx pre b)) = []"
      by auto
    from diagnosis_plan_once [OF ka assms(2), of tidx] a
    have p1: "length (created_of ''Diagnosis'' b (snd (add_single_trace tidx (pre @ [a]) b))) = 1"
      "length (created_of ''TreatmentPlan'' b (snd (add_single_trace tidx (pre @ [a]) b))) = 1"
      by auto
    from diagnosis_plan_once [OF assms, of tidx] a d
    have p2: "length (created_of ''Diagnosis'' b (snd (add_single_trace tidx acts b))) = 1"
      "length (created_of ''TreatmentPlan'' b (snd (add_single_trace tidx acts b))) = 1"
      by auto
    from created_grows [OF kw assms(2), of "''Diagnosis''" tidx] p1(1) p2(1)
    have "created_of ''Diagnosis'' b (snd (add_single_trace tidx (pre @ [a]) b)) =
               created_of ''Diagnosis'' b (snd (add_single_trace tidx acts b))"
      unfolding w by auto
    moreover from created_grows [OF kw assms(2), of "''TreatmentPlan''" tidx] p1(2) p2(2)
    have "created_of ''TreatmentPlan'' b (snd (add_single_trace tidx (pre @ [a]) b)) =
               created_of ''TreatmentPlan'' b (snd (add_single_trace tidx acts b))"
      unfolding w by auto
    ultimately show ?thesis
      using p0 by simp
  qed
  from diagnosis_plan_once [OF assms, of tidx] first show ?thesis
    by blast
qed

theorem C7_one_diagnosis_one_plan_witness:
  "known ''JointConsult'' \<and> known ''MedicationTreatment''
   \<and> 0 \<le> event_step_std_minutes example_builder
   \<and> length (created_of ''Diagnosis'' example_builder
        (snd (add_single_trace 1 [''JointConsult'', ''MedicationTreatment'', ''JointConsult'']
           example_builder))) = 1
   \<and> length (created_of ''TreatmentPlan'' example_builder
        (snd (add_single_trace 1 [''JointConsult'', ''MedicationTreatment'', ''JointConsult'']
           example_builder))) = 1"
proof -
  have h: "\<forall>a\<in>set [''JointConsult'', ''MedicationTreatment'', ''JointConsult'']. known a"
    by (simp add: known_iff)
  have s: "0 \<le> event_step_std_minutes example_builder"
    by (simp add: example_builder_def)
  from C7_one_diagnosis_one_plan [OF h s, of 1] h s show ?thesis
    by simp
qed

section \<open>Object relationships of a trace\<close>



section \<open>Unknown activity labels\<close>

lemma replay_stops_at_unknown:
  assumes "\<forall>a\<in>set pre. known a" and "\<not> known bad" and "ctx_ok c b"
  shows "\<exists>c' b'. replay pre c t step b = (Inr c', b')
           \<and> replay (pre @ bad # post) c t step b =
               (Inl (ValueError (''Unknown activity label: '' @ bad)), b')"
proof -
  from replay_summary [OF assms(1,3), of t step] obtain c' b' where
    r: "replay pre c t step b = (Inr c', b')"
    by blast
  then show ?thesis
    by (simp add: replay_append dispatch_unknown [OF assms(2)])
qed

lemma add_single_trace_known:
  assumes "\<forall>a\<in>set acts. known a" and "0 \<le> event_step_std_minutes b"
  shows "\<exists>b'. add_single_trace tidx acts b = (Inr (), b')
           \<and> length (events b') = length (events b) + length acts
           \<and> event_step_std_minutes b' = event_step_std_minutes b"
proof -
  from add_single_trace_summary [OF assms, of tidx] obtain c0 b0 c' b' where
    p: "replay_post acts c0 (trace_start b tidx) (trace_step b) b0 c' b'"
    and a: "add_single_trace tidx acts b = (Inr (), emit_o2o c' b')"
    and i: "events b0 = events b" "event_step_std_minutes b0 = event_step_std_minutes b"
    by blast
  from p obtain evs where
    evs: "events b' = events b0 @ evs"
      "map e_time evs = map (\<lambda>k. iso (trace_start b tidx + int k * trace_step b)) [0..<length acts]"
    and f: "event_step_std_minutes b' = event_step_std_minutes b0"
    unfolding replay_post_def by blast
  have "length evs = length acts"
    using arg_cong [OF evs(2), of length] by simp
  with a i evs(1) f show ?thesis by simp
qed

lemma add_single_trace_stops:
  assumes "\<forall>a\<in>set pre. known a" and "\<not> known bad" and "0 \<le> event_step_std_minutes b"
  shows "\<exists>b'. add_single_trace tidx (pre @ bad # post) b =
               (Inl (ValueError (''Unknown activity label: '' @ bad)), b')
           \<and> add_single_trace tidx (pre @ [bad]) b =
               (Inl (ValueError (''Unknown activity label: '' @ bad)), b')
           \<and> events b' = events (snd (add_single_trace tidx pre b))
           \<and> objects b' = objects (snd (add_single_trace tidx pre b))
           \<and> length (events b') = length (events b) + length pre"
proof -
  let ?c0 = "fst (trace_init b tidx)" and ?b0 = "snd (trace_init b tidx)"
  from replay_summary [OF assms(1) trace_init_facts(1), of b tidx "trace_start b tidx" "trace_step b"]
  obtain c' b' where
    r: "replay pre ?c0 (trace_start b tidx) (trace_step b) ?b0 = (Inr c', b')"
    by blast
  have s: "replay (pre @ bad # q) ?c0 (trace_start b tidx) (trace_step b) ?b0 =
               (Inl (ValueError (''Unknown activity label: '' @ bad)), b')" for q
    using r by (simp add: replay_append dispatch_unknown [OF assms(2)])
  have a: "add_single_trace tidx (pre @ bad # q) b =
               (Inl (ValueError (''Unknown activity label: '' @ bad)), b')" for q
    using s [of q] by (simp add: add_single_trace_eq [OF assms(3)])
  have p: "add_single_trace tidx pre b = (Inr (), emit_o2o c' b')"
    using r by (simp add: add_single_trace_eq [OF assms(3)])
  from add_single_trace_known [OF assms(1,3), of tidx] p
  have "length (events b') = length (events b) + length pre"
    by simp
  with a [of post] a [of "[]"] p show ?thesis by simp
qed

lemma add_traces_from_known:
  assumes "\<forall>a\<in>set (concat traces). known a" and "0 \<le> event_step_std_minutes b"
  shows "\<exists>b'. add_traces_from idx traces b = (Inr (), b')
           \<and> length (events b') = length (events b) + length (concat traces)
           \<and> event_step_std_minutes b' = event_step_std_minutes b"
  using assms
proof (induction traces arbitrary: idx b)
  case Nil
  then show ?case by simp
next
  case (Cons tr traces)
  then have "\<forall>a\<in>set tr. known a"
    by simp
  from add_single_trace_known [OF this Cons.prems(2), of idx] obtain b1 where
    s: "add_single_trace idx tr b = (Inr (), b1)" "length (events b1) = length (events b) + length tr"
      "event_step_std_minutes b1 = event_step_std_minutes b"
    by blast
  from Cons.prems have "\<forall>a\<in>set (concat traces). known a" "0 \<le> event_step_std_minutes b1"
    using s(3) by simp_all
  from Cons.IH [OF this, of "Suc idx"] s show ?case
    by auto
qed

lemma add_traces_from_bad_scale:
  assumes "event_step_std_minutes b < 0" and "traces \<noteq> []"
  shows "add_traces_from idx traces b = (Inl (ValueError ''scale < 0''), b)"
  using assms by (cases traces) (simp_all add: add_single_trace_bad_scale)

lemma add_traces_from_append:
  "add_traces_from idx (ts1 @ ts2) b =
     (case add_traces_from idx ts1 b of
        (Inl err, b') \<Rightarrow> (Inl err, b')
      | (Inr u, b') \<Rightarrow> add_traces_from (idx + length ts1) ts2 b')"
proof (induction ts1 arbitrary: idx b)
  case Nil
  then show ?case by simp
next
  case (Cons tr ts1)
  show ?case
  proof (cases "add_single_trace idx tr b")
    case (Pair r b1)
    then show ?thesis
      by (cases r) (auto simp: Cons.IH split: prod.splits sum.splits)
  qed
qed

lemma first_unknown_label:
  assumes "\<exists>tr\<in>set traces. \<exists>a\<in>set tr. \<not> known a"
  shows "\<exists>ts1 pre bad post ts2. traces = ts1 @ (pre @ bad # post) # ts2
           \<and> (\<forall>a\<in>set (concat ts1). known a) \<and> (\<forall>a\<in>set pre. known a) \<and> \<not> known bad"
proof -
  from assms have "\<exists>tr\<in>set traces. \<not> (\<forall>a\<in>set tr. known a)"
    by blast
  from split_list_first_prop [OF this] obtain ts1 tr ts2 where
    t: "traces = ts1 @ tr # ts2" "\<not> (\<forall>a\<in>set tr. known a)" "\<forall>x\<in>set ts1. \<forall>a\<in>set x. known a"
    by auto
  from t(2) have "\<exists>a\<in>set tr. \<not> known a"
    by blast
  from split_list_first_prop [OF this] obtain pre bad post where
    u: "tr = pre @ bad # post" "\<not> known bad" "\<forall>a\<in>set pre. known a"
    by auto
  show ?thesis
  proof (intro exI conjI)
    show "traces = ts1 @ (pre @ bad # post) # ts2"
      using t(1) u(1) by simp
    show "\<forall>a\<in>set (concat ts1). known a"
      using t(3) by auto
    show "\<forall>a\<in>set pre. known a" "\<not> known bad"
      using u by simp_all
  qed
qed


text \<open>
  C3: let the first label outside the vocabulary be \<open>bad\<close>, after the traces \<open>ts1\<close> and
  the labels \<open>pre\<close> of its own trace, the configured deviation not being negative.  Then
  \<open>add_traces\<close> raises the \<open>ValueError\<close> for \<open>bad\<close>; what follows \<open>bad\<close> in the input
  has no influence on the result; the events and objects of the builder are those of the
  input cut off before \<open>bad\<close>, one event for each label before it.  A full run on such an
  input ends in an error, without a document, whatever the configuration is.
\<close>

theorem C3_unknown_label_aborts:
  assumes "\<forall>a\<in>set (concat ts1). known a" and "\<forall>a\<in>set pre. known a" and "\<not> known bad"
    and "0 \<le> event_step_std_minutes b"
  shows "fst (add_traces (ts1 @ (pre @ bad # post) # ts2) b) =
           Inl (ValueError (''Unknown activity label: '' @ bad))
     \<and> add_traces (ts1 @ (pre @ bad # post) # ts2) b = add_traces (ts1 @ [pre @ [bad]]) b
     \<and> events (snd (add_traces (ts1 @ (pre @ bad # post) # ts2) b)) =
         events (snd (add_traces (ts1 @ [pre]) b))
     \<and> objects (snd (add_traces (ts1 @ (pre @ bad # post) # ts2) b)) =
         objects (snd (add_traces (ts1 @ [pre]) b))
     \<and> length (events (snd (add_traces (ts1 @ (pre @ bad # post) # ts2) b))) =
         length (events b) + length (concat ts1) + length pre
     \<and> fst (generate lib cfg (ts1 @ (pre @ bad # post) # ts2) g) =
         (case OCELBuilder lib cfg g of
            Inl err \<Rightarrow> Inl err
          | Inr b0 \<Rightarrow>
              if event_step_std_minutes b0 < 0 then Inl (ValueError ''scale < 0'')
              else Inl (ValueError (''Unknown activity label: '' @ bad)))"
proof -
  let ?err = "Inl (ValueError (''Unknown activity label: '' @ bad)) :: error + unit"
  have run: "\<exists>b'. add_traces (ts1 @ (pre @ bad # post) # ts2) x = (?err, b')
      \<and> add_traces (ts1 @ [pre @ [bad]]) x = (?err, b')
      \<and> events b' = events (snd (add_traces (ts1 @ [pre]) x))
      \<and> objects b' = objects (snd (add_traces (ts1 @ [pre]) x))
      \<and> length (events b') = length (events x) + length (concat ts1) + length pre"
    if x: "0 \<le> event_step_std_minutes x" for x
  proof -
    from add_traces_from_known [OF assms(1) x, of 1] obtain b1 where
      h: "add_traces_from 1 ts1 x = (Inr (), b1)"
        "length (events b1) = length (events x) + length (concat ts1)"
        "event_step_std_minutes b1 = event_step_std_minutes x"
      by blast
    from x h(3) have x1: "0 \<le> event_step_std_minutes b1"
      by simp
    from add_single_trace_stops [OF assms(2,3) x1, of "1 + length ts1" post] obtain b' where
      s: "add_single_trace (1 + length ts1) (pre @ bad # post) b1 = (?err, b')"
        "add_single_trace (1 + length ts1) (pre @ [bad]) b1 = (?err, b')"
        "events b' = events (snd (add_single_trace (1 + length ts1) pre b1))"
        "objects b' = objects (snd (add_single_trace (1 + length ts1) pre b1))"
        "length (events b') = length (events b1) + length pre"
      by blast
    from add_single_trace_known [OF assms(2) x1, of "1 + length ts1"] obtain b2 where
      p: "add_single_trace (1 + length ts1) pre b1 = (Inr (), b2)"
      by blast
    have "add_traces (ts1 @ (pre @ bad # post) # ts2) x = (?err, b')"
      using h(1) s(1) by (simp add: add_traces_def add_traces_from_append)
    moreover have "add_traces (ts1 @ [pre @ [bad]]) x = (?err, b')"
      using h(1) s(2) by (simp add: add_traces_def add_traces_from_append)
    moreover have "snd (add_traces (ts1 @ [pre]) x) = b2"
      using h(1) p by (simp add: add_traces_def add_traces_from_append)
    ultimately show ?thesis
      using s(3,4,5) h(2) p by simp
  qed
  from run [OF assms(4)] obtain b' where
    r: "add_traces (ts1 @ (pre @ bad # post) # ts2) b = (?err, b')"
      "add_traces (ts1 @ [pre @ [bad]]) b = (?err, b')"
      "events b' = events (snd (add_traces (ts1 @ [pre]) b))"
      "objects b' = objects (snd (add_traces (ts1 @ [pre]) b))"
      "length (events b') = length (events b) + length (concat ts1) + length pre"
    by blast
  have doc: "fst (generate lib cfg (ts1 @ (pre @ bad # post) # ts2) g) =
         (case OCELBuilder lib cfg g of
            Inl err \<Rightarrow> Inl err
          | Inr b0 \<Rightarrow>
              if event_step_std_minutes b0 < 0 then Inl (ValueError ''scale < 0'')
              else Inl (ValueError (''Unknown activity label: '' @ bad)))"
  proof (cases "OCELBuilder lib cfg g")
    case (Inl err)
    then show ?thesis by (simp add: generate_def)
  next
    case (Inr b0)
    show ?thesis
    proof (cases "event_step_std_minutes b0 < 0")
      case True
      then have "add_traces (ts1 @ (pre @ bad # post) # ts2) b0 =
          (Inl (ValueError ''scale < 0''), b0)"
        unfolding add_traces_def by (rule add_traces_from_bad_scale) simp
      with Inr True show ?thesis by (simp add: generate_def)
    next
      case False
      then have "0 \<le> event_step_std_minutes b0"
        by simp
      from run [OF this] obtain b'' where
        "add_traces (ts1 @ (pre @ bad # post) # ts2) b0 = (?err, b'')"
        by blast
      with Inr False show ?thesis by (simp add: generate_def)
    qed
  qed
  from r doc show ?thesis by simp
qed

theorem C3_unknown_label_aborts_witness:
  "known ''OutpatientRegistration'' \<and> known ''ImagingTest'' \<and> \<not> known ''XRay''
   \<and> 0 \<le> event_step_std_minutes example_builder
   \<and> fst (add_traces ([[''OutpatientRegistration'']] @
          ([''ImagingTest''] @ ''XRay'' # [''Discharge'']) # [[''Payment'']]) example_builder) =
       Inl (ValueError (''Unknown activity label: '' @ ''XRay''))
   \<and> length (events (snd (add_traces ([[''OutpatientRegistration'']] @
          ([''ImagingTest''] @ ''XRay'' # [''Discharge'']) # [[''Payment'']]) example_builder))) = 2"
proof -
  have h1: "\<forall>a\<in>set (concat [[''OutpatientRegistration'']]). known a"
    and h2: "\<forall>a\<in>set [''ImagingTest'']. known a"
    and h3: "\<not> known ''XRay''"
    by (simp_all add: known_iff)
  have e: "events example_builder = []"
    and h4: "0 \<le> event_step_std_minutes example_builder"
    by (simp_all add: example_builder_def)
  note th = C3_unknown_label_aborts [OF h1 h2 h3 h4, where post = "[''Discharge'']"
      and ?ts2.0 = "[[''Payment'']]" and lib = example_lib
      and cfg = default_config and g = "(\<lambda>i. 0, \<lambda>i. 0)"]
  from th have a: "fst (add_traces ([[''OutpatientRegistration'']] @
          ([''ImagingTest''] @ ''XRay'' # [''Discharge'']) # [[''Payment'']]) example_builder) =
       Inl (ValueError (''Unknown activity label: '' @ ''XRay''))"
    by (rule conjunct1)
  from th have "length (events (snd (add_traces ([[''OutpatientRegistration'']] @
          ([''ImagingTest''] @ ''XRay'' # [''Discharge'']) # [[''Payment'']]) example_builder))) =
       length (events example_builder) + length (concat [[''OutpatientRegistration'']])
         + length [''ImagingTest'']"
    by (elim conjE)
  then have l: "length (events (snd (add_traces ([[''OutpatientRegistration'']] @
          ([''ImagingTest''] @ ''XRay'' # [''Discharge'']) # [[''Payment'']]) example_builder))) = 2"
    using e by simp
  from h1 h2 h3 h4 a l show ?thesis
    by simp
qed

section \<open>Event types\<close>

text \<open>
  C1 fails on the code: the handler of JointConsult appends an event of type \<open>MDT\<close>, which
  is neither one of the nine labels nor a name that \<open>DEFAULT_EVENT_TYPES\<close> declares.  Every
  other handler emits its own label (\<open>emitted_types\<close>).
\<close>

lemma emitted_types:
  assumes "\<forall>a\<in>set acts. known a" and "0 \<le> event_step_std_minutes b"
  shows "map e_type (emitted b (snd (add_single_trace tidx acts b))) =
           map (\<lambda>a. if a = ''JointConsult'' then ''MDT'' else a) acts"
proof -
  from add_single_trace_summary [OF assms, of tidx] obtain c0 b0 c' b' where
    p: "replay_post acts c0 (trace_start b tidx) (trace_step b) b0 c' b'"
    and a: "add_single_trace tidx acts b = (Inr (), emit_o2o c' b')"
    and i: "events b0 = events b"
    by blast
  from p obtain evs where
    evs: "events b' = events b0 @ evs"
      "map e_type evs = map (\<lambda>a. if a = ''JointConsult'' then ''MDT'' else a) acts"
    unfolding replay_post_def by blast
  have "emitted b (snd (add_single_trace tidx acts b)) = evs"
    using a i evs(1) by (simp add: emitted_def)
  with evs(2) show ?thesis by simp
qed

lemma declared_event_types: "schema_names DEFAULT_EVENT_TYPES = activity_vocabulary"
  by (simp add: DEFAULT_EVENT_TYPES_def activity_vocabulary_def)

theorem C1_joint_consult_emits_MDT:
  assumes "0 \<le> event_step_std_minutes b"
  shows "known ''JointConsult''
   \<and> fst (add_traces [[''JointConsult'']] b) = Inr ()
   \<and> map e_type (emitted b (snd (add_traces [[''JointConsult'']] b))) = [''MDT'']
   \<and> ''MDT'' \<notin> set activity_vocabulary
   \<and> ''MDT'' \<notin> set (schema_names DEFAULT_EVENT_TYPES)"
proof -
  have k: "\<forall>a\<in>set [''JointConsult'']. known a"
    by (simp add: known_iff)
  from add_single_trace_known [OF k assms, of 1] obtain b' where
    "add_single_trace 1 [''JointConsult''] b = (Inr (), b')"
    by blast
  then have "fst (add_traces [[''JointConsult'']] b) = Inr ()"
    by (simp add: add_traces_def)
  moreover have "map e_type (emitted b (snd (add_traces [[''JointConsult'']] b))) = [''MDT'']"
    using emitted_types [OF k assms, of 1] by (simp add: add_traces_single)
  moreover have "''MDT'' \<notin> set activity_vocabulary"
    by (simp add: activity_vocabulary_def)
  ultimately show ?thesis
    using k by (simp add: declared_event_types)
qed

theorem C1_joint_consult_emits_MDT_witness:
  "0 \<le> event_step_std_minutes example_builder
   \<and> map e_type (emitted example_builder
        (snd (add_traces [[''JointConsult'']] example_builder))) = [''MDT'']"
proof -
  have s: "0 \<le> event_step_std_minutes example_builder"
    by (simp add: example_builder_def)
  from C1_joint_consult_emits_MDT [OF s] s show ?thesis
    by simp
qed

section \<open>Attribute histories\<close>

lemma iso_mono: "x \<le> y \<Longrightarrow> iso x \<le> iso y"
  unfolding iso_def by (rule zdiv_mono1) simp_all

lemma hist_upto_mono: "hist_upto T attrs \<Longrightarrow> T \<le> T' \<Longrightarrow> hist_upto T' attrs"
  by (auto simp: hist_upto_def list_all_iff)

lemma hist_upto_snoc:
  assumes "hist_upto T attrs" and "\<not> forward_dated a" and "a_time a = T"
  shows "hist_upto T (attrs @ [a])"
proof -
  from assms(1) have s: "sorted (map a_time (filter (\<lambda>a. \<not> forward_dated a) attrs))"
    and b: "\<forall>x\<in>set attrs. forward_dated x \<or> a_time x \<le> T"
    and f: "length (filter (\<lambda>a. a_name a = ''findings'') attrs) \<le> 1"
      "length (filter (\<lambda>a. a_name a = ''adverse_event'') attrs) \<le> 1"
    by (auto simp: hist_upto_def hist_ok_def list_all_iff)
  have "sorted (map a_time (filter (\<lambda>a. \<not> forward_dated a) attrs) @ [T])"
    using s b by (auto simp: sorted_append)
  then show ?thesis
    using assms(2,3) b f by (auto simp: hist_upto_def hist_ok_def list_all_iff forward_dated_def)
qed

lemma hist_ok_name_ordered:
  assumes "hist_ok attrs"
  shows "name_ordered attrs"
  unfolding name_ordered_def
proof
  fix n
  show "sorted (map a_time (filter (\<lambda>a. a_name a = n) attrs))"
  proof (cases "n = ''findings'' \<or> n = ''adverse_event''")
    case True
    with assms have "length (map a_time (filter (\<lambda>a. a_name a = n) attrs)) \<le> 1"
      by (auto simp: hist_ok_def)
    then show ?thesis
      by (cases "map a_time (filter (\<lambda>a. a_name a = n) attrs)") (auto simp: Suc_le_eq)
  next
    case False
    then have "filter (\<lambda>a. a_name a = n) attrs =
        filter (\<lambda>a. a_name a = n) (filter (\<lambda>a. \<not> forward_dated a) attrs)"
      by (auto simp: forward_dated_def intro: filter_cong)
    moreover have "sorted (map a_time (filter (\<lambda>a. a_name a = n) (filter (\<lambda>a. \<not> forward_dated a) attrs)))"
      using assms by (simp only: hist_ok_def sorted_filter)
    ultimately show ?thesis by simp
  qed
qed

lemma add_entry_hist:
  assumes "list_all (\<lambda>ob. hist_upto T (o_attributes ob)) os"
    and "\<not> forward_dated a" and "a_time a = T"
  shows "list_all (\<lambda>ob. hist_upto T (o_attributes ob)) (add_entry obj_id a os)"
  using assms(1)
proof (induction os rule: rev_induct)
  case Nil
  then show ?case by simp
next
  case (snoc ob os)
  then show ?case
    using assms(2,3) by (auto simp: add_entry_snoc hist_upto_snoc)
qed

lemma mark_all_hist:
  assumes "list_all (\<lambda>ob. hist_upto T (o_attributes ob)) os"
  shows "list_all (\<lambda>ob. hist_upto T (o_attributes ob)) (mark_all tids T os)"
  using assms
proof (induction tids arbitrary: os)
  case Nil
  then show ?case by (simp add: mark_all_def)
next
  case (Cons tid tids)
  have "list_all (\<lambda>ob. hist_upto T (o_attributes ob))
          (add_entry tid \<lparr>a_name = ''result_state'', a_time = T, a_value = VStr ''Reviewed''\<rparr> os)"
    using Cons.prems by (rule add_entry_hist) (simp_all add: forward_dated_def)
  from Cons.IH [OF this] show ?case
    by (simp add: mark_all_def)
qed

lemma mark_all_append:
  assumes "set tids \<subseteq> o_id ` set new"
  shows "mark_all tids ts (old @ new) = old @ mark_all tids ts new"
  using assms
proof (induction tids arbitrary: new)
  case Nil
  then show ?case by (simp add: mark_all_def)
next
  case (Cons tid tids)
  let ?new = "add_entry tid \<lparr>a_name = ''result_state'', a_time = ts, a_value = VStr ''Reviewed''\<rparr> new"
  have "set tids \<subseteq> o_id ` set ?new"
    using Cons.prems by simp
  from Cons.IH [OF this] Cons.prems show ?case
    by (simp add: mark_all_def add_entry_append)
qed

lemma made_hist:
  "hist_upto (iso t) (o_attributes (made (create_patient tidx t b)))"
  "hist_upto (iso t) (o_attributes (made (create_visit tidx t b)))"
  "hist_upto (iso t) (o_attributes (made (create_test c t m b)))"
  "hist_upto (iso t) (o_attributes (made (create_diagnosis c t b)))"
  "hist_upto (iso t) (o_attributes (made (create_plan c t dx b)))"
  "hist_upto (iso t) (o_attributes (made (create_medication c t pl b)))"
  by (simp_all add: made_def create_patient_def create_visit_def create_test_def
      create_diagnosis_def create_plan_def create_medication_def split_def Let_def
      hist_upto_def hist_ok_def forward_dated_def)


lemmas inv_simps = trace_inv_def Let_def split_def append_attr_eq add_entry_append add_entry_hist
  made_hist mark_reviewed_eq mark_all_append mark_all_hist forward_dated_def

lemma registration_inv:
  assumes "trace_inv old (iso t) c b"
  shows "\<exists>c' b'. emit_event_registration c t b = (Inr c', b') \<and> trace_inv old (iso t) c' b'"
  using assms by (auto simp: emit_event_registration_def inv_simps)

lemma initial_consult_inv:
  assumes "trace_inv old (iso t) c b"
  shows "\<exists>c' b'. emit_event_initial_consult c t b = (Inr c', b') \<and> trace_inv old (iso t) c' b'"
  using assms by (auto simp: emit_event_initial_consult_def inv_simps)

lemma imaging_inv:
  assumes "trace_inv old (iso t) c b"
  shows "\<exists>c' b'. emit_event_imaging c t b = (Inr c', b') \<and> trace_inv old (iso t) c' b'"
  using assms by (auto simp: emit_event_imaging_def inv_simps)

lemma lab_inv:
  assumes "trace_inv old (iso t) c b"
  shows "\<exists>c' b'. emit_event_lab c t b = (Inr c', b') \<and> trace_inv old (iso t) c' b'"
  using assms by (auto simp: emit_event_lab_def inv_simps)

lemma followup_inv:
  assumes "trace_inv old (iso t) c b"
  shows "\<exists>c' b'. emit_event_followup c t b = (Inr c', b') \<and> trace_inv old (iso t) c' b'"
proof -
  from assms obtain new where
    n: "objects b = old @ new" "list_all (\<lambda>ob. hist_upto (iso t) (o_attributes ob)) new"
      "visit_id c \<in> o_id ` set new" "set (test_ids c) \<subseteq> o_id ` set new"
      "set_option (plan_id c) \<subseteq> o_id ` set new"
    unfolding trace_inv_def by blast
  have sub: "set (test_ids c) \<subseteq> o_id ` set (objects b)"
    using n(1,4) by auto
  have m: "mark_reviewed (test_ids c) (iso t) b =
      (Inr (), b\<lparr>objects := old @ mark_all (test_ids c) (iso t) new\<rparr>)"
    using mark_reviewed_eq [OF sub] n(1,4) by (simp add: mark_all_append)
  show ?thesis
    using n by (simp add: emit_event_followup_def m trace_inv_def Let_def split_def mark_all_hist)
qed

lemma mdt_inv:
  assumes "trace_inv old (iso t) c b"
  shows "\<exists>c' b'. emit_event_mdt c t b = (Inr c', b') \<and> trace_inv old (iso t) c' b'"
  using assms by (auto simp: emit_event_mdt_def inv_simps split: option.splits)

lemma medication_inv:
  assumes "trace_inv old (iso t) c b"
  shows "\<exists>c' b'. emit_event_medication c t b = (Inr c', b') \<and> trace_inv old (iso t) c' b'"
proof -
  from assms obtain new where
    n: "objects b = old @ new" "list_all (\<lambda>ob. hist_upto (iso t) (o_attributes ob)) new"
      "visit_id c \<in> o_id ` set new" "set (test_ids c) \<subseteq> o_id ` set new"
      "set_option (plan_id c) \<subseteq> o_id ` set new"
    unfolding trace_inv_def by blast
  note sub = subset_insertI2 le_supI1
  show ?thesis
  proof (cases "plan_id c")
    case None
    then show ?thesis
      using n by (cases "diagnosis_id c") (simp_all add: emit_event_medication_def inv_simps sub image_Un)
  next
    case (Some p)
    then have "p \<in> o_id ` set new"
      using n(5) by simp
    with Some show ?thesis
      using n by (cases "diagnosis_id c") (simp_all add: emit_event_medication_def inv_simps sub image_Un)
  qed
qed

lemma payment_inv:
  assumes "trace_inv old (iso t) c b"
  shows "\<exists>c' b'. emit_event_payment c t b = (Inr c', b') \<and> trace_inv old (iso t) c' b'"
  using assms by (auto simp: emit_event_payment_def inv_simps)

lemma discharge_inv:
  assumes "trace_inv old (iso t) c b"
  shows "\<exists>c' b'. emit_event_discharge c t b = (Inr c', b') \<and> trace_inv old (iso t) c' b'"
  using assms by (auto simp: emit_event_discharge_def inv_simps)


lemma dispatch_inv:
  assumes "known act" and "trace_inv old (iso t) c b"
  shows "\<exists>c' b'. dispatch act c t b = (Inr c', b') \<and> trace_inv old (iso t) c' b'"
  using assms(1)
proof (cases rule: known_cases)
  case 1
  then show ?thesis using registration_inv [OF assms(2)] by (simp add: dispatch_def)
next
  case 2
  then show ?thesis using initial_consult_inv [OF assms(2)] by (simp add: dispatch_def)
next
  case 3
  then show ?thesis using imaging_inv [OF assms(2)] by (simp add: dispatch_def)
next
  case 4
  then show ?thesis using lab_inv [OF assms(2)] by (simp add: dispatch_def)
next
  case 5
  then show ?thesis using followup_inv [OF assms(2)] by (simp add: dispatch_def)
next
  case 6
  then show ?thesis using mdt_inv [OF assms(2)] by (simp add: dispatch_def)
next
  case 7
  then show ?thesis using medication_inv [OF assms(2)] by (simp add: dispatch_def)
next
  case 8
  then show ?thesis using payment_inv [OF assms(2)] by (simp add: dispatch_def)
next
  case 9
  then show ?thesis using discharge_inv [OF assms(2)] by (simp add: dispatch_def)
qed

lemma trace_inv_later: "trace_inv old T c b \<Longrightarrow> T \<le> T' \<Longrightarrow> trace_inv old T' c b"
  unfolding trace_inv_def list_all_iff by (blast intro: hist_upto_mono)

lemma trace_inv_tail:
  "trace_inv old T c b \<Longrightarrow>
     \<exists>new. objects b = old @ new \<and> list_all (\<lambda>ob. hist_ok (o_attributes ob)) new"
  unfolding trace_inv_def list_all_iff hist_upto_def by blast

lemma replay_inv:
  assumes "trace_inv old (iso t) c b" and "0 \<le> step"
  shows "\<exists>new. objects (snd (replay acts c t step b)) = old @ new
           \<and> list_all (\<lambda>ob. hist_ok (o_attributes ob)) new"
  using assms(1)
proof (induction acts arbitrary: c t b)
  case Nil
  then show ?case by (simp add: trace_inv_tail)
next
  case (Cons a acts)
  show ?case
  proof (cases "known a")
    case True
    from dispatch_inv [OF True Cons.prems] obtain c1 b1 where
      d: "dispatch a c t b = (Inr c1, b1)" and i: "trace_inv old (iso t) c1 b1"
      by blast
    have "iso t \<le> iso (t + step)"
      using assms(2) by (intro iso_mono) simp
    with i have "trace_inv old (iso (t + step)) c1 b1"
      by (rule trace_inv_later)
    from Cons.IH [OF this] d show ?thesis by simp
  next
    case False
    with Cons.prems show ?thesis
      by (simp add: dispatch_unknown trace_inv_tail)
  qed
qed

lemma add_single_trace_hist:
  assumes "list_all (\<lambda>ob. hist_ok (o_attributes ob)) (objects b)"
  shows "list_all (\<lambda>ob. hist_ok (o_attributes ob)) (objects (snd (add_single_trace tidx acts b)))"
proof (cases "event_step_std_minutes b < 0")
  case True
  with assms show ?thesis
    by (simp add: add_single_trace_bad_scale)
next
  case False
  then have std: "0 \<le> event_step_std_minutes b"
    by simp
  let ?c0 = "fst (trace_init b tidx)" and ?b0 = "snd (trace_init b tidx)"
  have "trace_inv (objects b) (iso (trace_start b tidx)) ?c0 ?b0"
    by (simp add: trace_init_def init_trace_objects_def split_def Let_def trace_inv_def
        made_hist)
  moreover have "0 \<le> trace_step b"
    using trace_step_ge [of b] by simp
  ultimately obtain new where
    n: "objects (snd (replay acts ?c0 (trace_start b tidx) (trace_step b) ?b0)) = objects b @ new"
      "list_all (\<lambda>ob. hist_ok (o_attributes ob)) new"
    using replay_inv by blast
  have "objects (snd (add_single_trace tidx acts b)) =
      objects (snd (replay acts ?c0 (trace_start b tidx) (trace_step b) ?b0))"
    by (simp add: add_single_trace_eq [OF std] split: prod.splits sum.splits)
  with n assms show ?thesis by simp
qed

lemma add_traces_from_hist:
  assumes "list_all (\<lambda>ob. hist_ok (o_attributes ob)) (objects b)"
  shows "list_all (\<lambda>ob. hist_ok (o_attributes ob)) (objects (snd (add_traces_from idx traces b)))"
  using assms
proof (induction traces arbitrary: idx b)
  case Nil
  then show ?case by simp
next
  case (Cons tr traces)
  from add_single_trace_hist [OF Cons.prems, of idx tr]
  have h: "list_all (\<lambda>ob. hist_ok (o_attributes ob)) (objects (snd (add_single_trace idx tr b)))" .
  show ?case
  proof (cases "add_single_trace idx tr b")
    case (Pair r b1)
    with h Cons.IH [of b1 "Suc idx"] show ?thesis
      by (cases r) simp_all
  qed
qed

text \<open>
  C2, as the code has it: whatever the traces are, and also when the run stops at an
  error, the history of every object is in order apart from the two entries that
  are stamped ahead (the other entries are sorted by timestamp, and \<open>findings\<close> and
  \<open>adverse_event\<close> occur at most once), so that for every attribute name the entries of
  that name are in non-decreasing timestamp order.
\<close>

theorem C2_histories_ordered_by_name:
  assumes "list_all (\<lambda>ob. hist_ok (o_attributes ob)) (objects b)"
  shows "list_all (\<lambda>ob. hist_ok (o_attributes ob) \<and> name_ordered (o_attributes ob))
           (objects (snd (add_traces traces b)))"
  using add_traces_from_hist [OF assms, of 1 traces]
  by (auto simp: add_traces_def list_all_iff hist_ok_name_ordered)

theorem C2_histories_ordered_by_name_witness:
  "list_all (\<lambda>ob. hist_ok (o_attributes ob)) (objects example_builder)
   \<and> list_all (\<lambda>ob. hist_ok (o_attributes ob) \<and> name_ordered (o_attributes ob))
        (objects (snd (add_traces [[''ImagingTest'', ''FollowUpVisit'', ''XRay'']] example_builder)))"
proof -
  have h: "list_all (\<lambda>ob. hist_ok (o_attributes ob)) (objects example_builder)"
    by (simp add: example_builder_def)
  from C2_histories_ordered_by_name [OF h] h show ?thesis
    by simp
qed

text \<open>
  The claim as it was written has the whole history sorted.  With a step of ten minutes
  an ImagingTest followed by a FollowUpVisit leaves the Test with \<open>findings\<close> stamped 15
  minutes after the test and, behind it, \<open>result_state\<close> stamped 10 minutes after the
  test.
\<close>

theorem C2_test_history_counterexample:
  "map a_time (o_attributes
     (objects (snd (add_traces [[''ImagingTest'', ''FollowUpVisit'']] short_step_builder)) ! 2)) =
     [1754038800, 1754038800, 1754038800, 1754038800, 1754038800, 1754039700, 1754039400]
   \<and> \<not> sorted (map a_time (o_attributes
     (objects (snd (add_traces [[''ImagingTest'', ''FollowUpVisit'']] short_step_builder)) ! 2)))"
proof -
  have "map a_time (o_attributes
     (objects (snd (add_traces [[''ImagingTest'', ''FollowUpVisit'']] short_step_builder)) ! 2)) =
     [1754038800, 1754038800, 1754038800, 1754038800, 1754038800, 1754039700, 1754039400]"
    by code_simp
  then show ?thesis by simp
qed

section \<open>Follow-up visits and tests\<close>

lemma get_in_added:
  assumes "obj_id \<in> o_id ` set os"
  shows "get_in (rev (add_entry obj_id \<lparr>a_name = n, a_time = ts, a_value = v\<rparr> os)) obj_id n = v"
  using assms
proof (induction os rule: rev_induct)
  case Nil
  then show ?case by simp
next
  case (snoc ob os)
  then show ?case
    by (auto simp: add_entry_snoc)
qed

lemma get_in_other:
  assumes "obj_id' \<noteq> obj_id"
  shows "get_in (rev (add_entry obj_id a os)) obj_id' n = get_in (rev os) obj_id' n"
proof (induction os rule: rev_induct)
  case Nil
  then show ?case by simp
next
  case (snoc ob os)
  then show ?case
    using assms by (auto simp: add_entry_snoc)
qed

lemma add_entry_unknown: "obj_id \<notin> o_id ` set os \<Longrightarrow> add_entry obj_id a os = os"
  using append_in_None [of "rev os" obj_id a] by (simp add: add_entry_def)

lemma reviewed_kept:
  assumes "get_in (rev os) tid ''result_state'' = VStr ''Reviewed''"
  shows "get_in (rev (add_entry x \<lparr>a_name = ''result_state'', a_time = ts,
            a_value = VStr ''Reviewed''\<rparr> os)) tid ''result_state'' = VStr ''Reviewed''"
proof (cases "x = tid")
  case True
  show ?thesis
  proof (cases "tid \<in> o_id ` set os")
    case True
    with \<open>x = tid\<close> show ?thesis by (simp add: get_in_added)
  next
    case False
    with \<open>x = tid\<close> assms show ?thesis by (simp add: add_entry_unknown)
  qed
next
  case False
  with assms show ?thesis by (simp add: get_in_other)
qed

lemma mark_all_kept:
  assumes "get_in (rev os) tid ''result_state'' = VStr ''Reviewed''"
  shows "get_in (rev (mark_all tids ts os)) tid ''result_state'' = VStr ''Reviewed''"
  using assms
proof (induction tids arbitrary: os)
  case Nil
  then show ?case by (simp add: mark_all_def)
next
  case (Cons x tids)
  from Cons.IH [OF reviewed_kept [OF Cons.prems, of x ts]] show ?case
    by (simp add: mark_all_def)
qed

lemma mark_all_reviewed:
  assumes "tid \<in> set tids" and "set tids \<subseteq> o_id ` set os"
  shows "get_in (rev (mark_all tids ts os)) tid ''result_state'' = VStr ''Reviewed''"
  using assms
proof (induction tids arbitrary: os)
  case Nil
  then show ?case by simp
next
  case (Cons x tids)
  let ?os = "add_entry x \<lparr>a_name = ''result_state'', a_time = ts, a_value = VStr ''Reviewed''\<rparr> os"
  have m: "mark_all (x # tids) ts os = mark_all tids ts ?os"
    by (simp add: mark_all_def)
  show ?case
  proof (cases "tid = x")
    case True
    with Cons.prems have "get_in (rev ?os) tid ''result_state'' = VStr ''Reviewed''"
      by (simp add: get_in_added)
    then show ?thesis
      unfolding m by (rule mark_all_kept)
  next
    case False
    with Cons.prems have "tid \<in> set tids" "set tids \<subseteq> o_id ` set ?os"
      by simp_all
    then show ?thesis
      unfolding m by (rule Cons.IH)
  qed
qed

lemma followup_effect:
  assumes "set (test_ids c) \<subseteq> o_id ` set (objects b)"
  shows "\<exists>e b'. emit_event_followup c t b = (Inr c, b')
     \<and> objects b' = mark_all (test_ids c) (iso t) (objects b)
     \<and> events b' = events b @ [e] \<and> e_type e = ''FollowUpVisit'' \<and> e_time e = iso t
     \<and> e_relationships e =
         [\<lparr>objectId = patient_id c, qualifier = ''subject''\<rparr>,
          \<lparr>objectId = visit_id c, qualifier = ''encounter''\<rparr>]
         @ map (\<lambda>tid. \<lparr>objectId = tid, qualifier = ''reviewed_test''\<rparr>) (test_ids c)"
  using assms
  by (simp add: emit_event_followup_def mark_reviewed_eq Let_def split_def foldl_reviewed)

section \<open>Object identifiers within a trace\<close>

lemma str_nat_nonempty: "str_nat n \<noteq> []"
  by (subst str_nat.simps) simp

lemma digit_char_inj: "m < 10 \<Longrightarrow> n < 10 \<Longrightarrow> char_of (48 + m :: nat) = char_of (48 + n) \<Longrightarrow> m = n"
  by (simp add: char_of_eq_iff take_bit_eq_mod)

lemma str_nat_inj: "str_nat m = str_nat n \<Longrightarrow> m = n"
proof (induction m arbitrary: n rule: less_induct)
  case (less m)
  show ?case
  proof (cases "m < 10")
    case m: True
    show ?thesis
    proof (cases "n < 10")
      case True
      with m less.prems show ?thesis
        by (simp add: str_nat.simps [of m] str_nat.simps [of n] digit_char_inj)
    next
      case False
      with m less.prems str_nat_nonempty [of "n div 10"] show ?thesis
        by (simp add: str_nat.simps [of m] str_nat.simps [of n])
    qed
  next
    case m: False
    show ?thesis
    proof (cases "n < 10")
      case True
      with m less.prems str_nat_nonempty [of "m div 10"] show ?thesis
        by (simp add: str_nat.simps [of m] str_nat.simps [of n])
    next
      case False
      with m less.prems have e: "str_nat (m div 10) = str_nat (n div 10)"
        and d: "char_of (48 + m mod 10) = char_of (48 + n mod 10)"
        by (simp_all add: str_nat.simps [of m] str_nat.simps [of n])
      from m have "m div 10 < m"
        by simp
      from less.IH [OF this e] have q: "m div 10 = n div 10" .
      have "m mod 10 = n mod 10"
        using d by (intro digit_char_inj) simp_all
      with q show ?thesis
        by (metis div_mult_mod_eq)
    qed
  qed
qed


lemma test_oid_inj: "test_oid tidx j = test_oid tidx k \<Longrightarrow> j = k"
  by (simp add: test_oid_def str_nat_inj)

lemma hd_test_oid [simp]: "hd (test_oid tidx k) = CHR ''t''"
  by (simp add: test_oid_def)

lemma fst_create_test: "fst (create_test c t m b) = test_oid (trace_index c) (Suc (length (test_ids c)))"
  by (simp add: create_test_def test_oid_def split_def Let_def)

lemma hd_created_ids:
  "hd (fst (create_medication c t pl b)) = CHR ''m''"
  "type_prefix b = default_type_prefix \<Longrightarrow> hd (fst (create_patient tidx t b)) = CHR ''p''"
  "type_prefix b = default_type_prefix \<Longrightarrow> hd (fst (create_visit tidx t b)) = CHR ''e''"
  "type_prefix b = default_type_prefix \<Longrightarrow> hd (fst (create_diagnosis c t b)) = CHR ''d''"
  "type_prefix b = default_type_prefix \<Longrightarrow> hd (fst (create_plan c t dx b)) = CHR ''p''"
  by (simp_all add: create_medication_def create_patient_def create_visit_def
      create_diagnosis_def create_plan_def new_object_id_def next_obj_suffix_def
      default_type_prefix_def split_def Let_def split: option.splits)

lemma numbered_Nil [simp]: "numbered tidx []"
  by (simp add: numbered_def)

lemma numbered_snoc:
  assumes "numbered tidx tids"
  shows "numbered tidx (tids @ [test_oid tidx (Suc (length tids))])"
proof -
  have "map (test_oid tidx) [1..<Suc (Suc (length tids))] =
      map (test_oid tidx) [1..<Suc (length tids)] @ [test_oid tidx (Suc (length tids))]"
    by simp
  with assms show ?thesis
    unfolding numbered_def by simp
qed

lemma tagged_simps [simp]:
  "tagged []"
  "tagged (xs @ ys) \<longleftrightarrow> tagged xs \<and> tagged ys"
  "tagged (ob # os) \<longleftrightarrow> (o_type ob = ''Test'') = (hd (o_id ob) = CHR ''t'') \<and> tagged os"
  by (simp_all add: tagged_def)

lemma tests_of_simps [simp]:
  "tests_of [] = []"
  "tests_of (xs @ ys) = tests_of xs @ tests_of ys"
  "tests_of (ob # os) = (if o_type ob = ''Test'' then o_id ob # tests_of os else tests_of os)"
  by (simp_all add: tests_of_def)

lemma add_entry_tagged [simp]: "tagged (add_entry obj_id a os) = tagged os"
  by (induction os rule: rev_induct) (auto simp: add_entry_snoc)

lemma add_entry_tests [simp]: "tests_of (add_entry obj_id a os) = tests_of os"
  by (induction os rule: rev_induct) (auto simp: add_entry_snoc)

lemma mark_all_tagged [simp]: "tagged (mark_all tids ts os) = tagged os"
  by (induction tids arbitrary: os) (simp_all add: mark_all_def)

lemma mark_all_tests [simp]: "tests_of (mark_all tids ts os) = tests_of os"
  by (induction tids arbitrary: os) (simp_all add: mark_all_def)

lemma tests_of_ids: "set (tests_of os) \<subseteq> o_id ` set os"
  by (auto simp: tests_of_def)

lemmas ids_simps = ids_inv_def Let_def split_def append_attr_eq add_entry_append
  hd_created_ids fst_create_test numbered_snoc subset_insertI2 le_supI1 image_Un

lemma registration_ids:
  assumes "ids_inv old c b"
  shows "\<exists>c' b'. emit_event_registration c t b = (Inr c', b') \<and> ids_inv old c' b'"
  using assms by (auto simp: emit_event_registration_def ids_simps)

lemma initial_consult_ids:
  assumes "ids_inv old c b"
  shows "\<exists>c' b'. emit_event_initial_consult c t b = (Inr c', b') \<and> ids_inv old c' b'"
  using assms by (auto simp: emit_event_initial_consult_def ids_simps)

lemma imaging_ids:
  assumes "ids_inv old c b"
  shows "\<exists>c' b'. emit_event_imaging c t b = (Inr c', b') \<and> ids_inv old c' b'"
  using assms by (auto simp: emit_event_imaging_def ids_simps)

lemma lab_ids:
  assumes "ids_inv old c b"
  shows "\<exists>c' b'. emit_event_lab c t b = (Inr c', b') \<and> ids_inv old c' b'"
  using assms by (auto simp: emit_event_lab_def ids_simps)

lemma followup_ids:
  assumes "ids_inv old c b"
  shows "\<exists>c' b'. emit_event_followup c t b = (Inr c', b') \<and> ids_inv old c' b'"
proof -
  from assms obtain new where
    n: "objects b = old @ new" "type_prefix b = default_type_prefix" "tagged new"
      "tests_of new = test_ids c"
      "numbered (trace_index c) (test_ids c)"
      "visit_id c \<in> o_id ` set new" "set_option (plan_id c) \<subseteq> o_id ` set new"
    unfolding ids_inv_def by blast
  have sub: "set (test_ids c) \<subseteq> o_id ` set new"
    using tests_of_ids [of new] n(4) by simp
  then have "set (test_ids c) \<subseteq> o_id ` set (objects b)"
    using n(1) by auto
  from mark_reviewed_eq [OF this] sub n(1)
  have m: "mark_reviewed (test_ids c) (iso t) b =
      (Inr (), b\<lparr>objects := old @ mark_all (test_ids c) (iso t) new\<rparr>)"
    by (simp add: mark_all_append)
  show ?thesis
    using n by (simp add: emit_event_followup_def m ids_inv_def Let_def split_def)
qed

lemma mdt_ids:
  assumes "ids_inv old c b"
  shows "\<exists>c' b'. emit_event_mdt c t b = (Inr c', b') \<and> ids_inv old c' b'"
  using assms by (auto simp: emit_event_mdt_def ids_simps split: option.splits)

lemma medication_ids_inv:
  assumes "ids_inv old c b"
  shows "\<exists>c' b'. emit_event_medication c t b = (Inr c', b') \<and> ids_inv old c' b'"
proof -
  from assms obtain new where
    n: "objects b = old @ new" "type_prefix b = default_type_prefix" "tagged new"
      "tests_of new = test_ids c"
      "numbered (trace_index c) (test_ids c)"
      "visit_id c \<in> o_id ` set new" "set_option (plan_id c) \<subseteq> o_id ` set new"
    unfolding ids_inv_def by blast
  show ?thesis
  proof (cases "plan_id c")
    case None
    then show ?thesis
      using n by (cases "diagnosis_id c") (simp_all add: emit_event_medication_def ids_simps)
  next
    case (Some p)
    then have "p \<in> o_id ` set new"
      using n(7) by simp
    with Some show ?thesis
      using n by (cases "diagnosis_id c") (simp_all add: emit_event_medication_def ids_simps)
  qed
qed

lemma payment_ids:
  assumes "ids_inv old c b"
  shows "\<exists>c' b'. emit_event_payment c t b = (Inr c', b') \<and> ids_inv old c' b'"
  using assms by (auto simp: emit_event_payment_def ids_simps)

lemma discharge_ids:
  assumes "ids_inv old c b"
  shows "\<exists>c' b'. emit_event_discharge c t b = (Inr c', b') \<and> ids_inv old c' b'"
  using assms by (auto simp: emit_event_discharge_def ids_simps)


lemma dispatch_ids:
  assumes "known act" and "ids_inv old c b"
  shows "\<exists>c' b'. dispatch act c t b = (Inr c', b') \<and> ids_inv old c' b'"
  using assms(1)
proof (cases rule: known_cases)
  case 1
  then show ?thesis using registration_ids [OF assms(2)] by (simp add: dispatch_def)
next
  case 2
  then show ?thesis using initial_consult_ids [OF assms(2)] by (simp add: dispatch_def)
next
  case 3
  then show ?thesis using imaging_ids [OF assms(2)] by (simp add: dispatch_def)
next
  case 4
  then show ?thesis using lab_ids [OF assms(2)] by (simp add: dispatch_def)
next
  case 5
  then show ?thesis using followup_ids [OF assms(2)] by (simp add: dispatch_def)
next
  case 6
  then show ?thesis using mdt_ids [OF assms(2)] by (simp add: dispatch_def)
next
  case 7
  then show ?thesis using medication_ids_inv [OF assms(2)] by (simp add: dispatch_def)
next
  case 8
  then show ?thesis using payment_ids [OF assms(2)] by (simp add: dispatch_def)
next
  case 9
  then show ?thesis using discharge_ids [OF assms(2)] by (simp add: dispatch_def)
qed

lemma replay_ids:
  assumes "\<forall>a\<in>set acts. known a" and "ids_inv old c b"
  shows "\<exists>c' b'. replay acts c t step b = (Inr c', b') \<and> ids_inv old c' b'"
  using assms
proof (induction acts arbitrary: c t b)
  case Nil
  then show ?case by simp
next
  case (Cons a acts)
  then have "known a" by simp
  from dispatch_ids [OF this Cons.prems(2)] obtain c1 b1 where
    d: "dispatch a c t b = (Inr c1, b1)" and i: "ids_inv old c1 b1"
    by blast
  from Cons.prems(1) have "\<forall>a\<in>set acts. known a" by simp
  from Cons.IH [OF this i] d show ?case by simp
qed

lemma trace_init_ids:
  assumes "type_prefix b = default_type_prefix"
  shows "ids_inv (objects b) (fst (trace_init b tidx)) (snd (trace_init b tidx))"
  using assms
  by (simp add: trace_init_def init_trace_objects_def ids_simps)

lemma add_entry_map:
  assumes "distinct (map o_id (filter P os))" and "\<forall>ob\<in>set os. o_id ob = tid \<longrightarrow> P ob"
  shows "add_entry tid a os =
     map (\<lambda>ob. if o_id ob = tid then ob\<lparr>o_attributes := o_attributes ob @ [a]\<rparr> else ob) os"
  using assms
proof (induction os rule: rev_induct)
  case Nil
  then show ?case by simp
next
  case (snoc ob os)
  show ?case
  proof (cases "o_id ob = tid")
    case True
    with snoc.prems have "P ob" "tid \<notin> o_id ` set (filter P os)"
      by auto
    with snoc.prems(2) have "\<forall>x\<in>set os. o_id x \<noteq> tid"
      by auto
    then have "map (\<lambda>ob. if o_id ob = tid then ob\<lparr>o_attributes := o_attributes ob @ [a]\<rparr> else ob) os = os"
      by (intro map_idI) simp
    with True show ?thesis
      by (simp add: add_entry_snoc)
  next
    case False
    with snoc show ?thesis
      by (simp add: add_entry_snoc)
  qed
qed

lemma mark_all_map:
  assumes "distinct (map o_id (filter (\<lambda>ob. o_type ob = ty) os))"
    and "\<forall>ob\<in>set os. o_id ob \<in> set tids \<longrightarrow> o_type ob = ty"
    and "distinct tids"
  shows "mark_all tids ts os =
     map (\<lambda>ob. if o_id ob \<in> set tids
                then ob\<lparr>o_attributes := o_attributes ob @
                       [\<lparr>a_name = ''result_state'', a_time = ts, a_value = VStr ''Reviewed''\<rparr>]\<rparr>
                else ob) os"
  using assms
proof (induction tids arbitrary: os)
  case Nil
  then show ?case by (simp add: mark_all_def)
next
  case (Cons x tids)
  let ?a = "\<lparr>a_name = ''result_state'', a_time = ts, a_value = VStr ''Reviewed''\<rparr>"
  let ?f = "\<lambda>ob. if o_id ob = x then ob\<lparr>o_attributes := o_attributes ob @ [?a]\<rparr> else ob"
  have e: "add_entry x ?a os = map ?f os"
    using Cons.prems by (intro add_entry_map [where P = "\<lambda>ob. o_type ob = ty"]) auto
  have m: "mark_all (x # tids) ts os = mark_all tids ts (map ?f os)"
    by (simp add: mark_all_def e)
  have k: "map o_id (filter (\<lambda>ob. o_type ob = ty) (map ?f os)) =
      map o_id (filter (\<lambda>ob. o_type ob = ty) os)"
    by (induction os) auto
  have "mark_all tids ts (map ?f os) =
     map (\<lambda>ob. if o_id ob \<in> set tids
                then ob\<lparr>o_attributes := o_attributes ob @ [?a]\<rparr> else ob) (map ?f os)"
    using Cons.prems by (intro Cons.IH) (auto simp: k)
  with Cons.prems(3) show ?case
    unfolding m by auto
qed

lemma numbered_distinct: "numbered tidx tids \<Longrightarrow> distinct tids"
proof -
  assume "numbered tidx tids"
  then have "tids = map (test_oid tidx) [1..<Suc (length tids)]"
    by (simp add: numbered_def)
  moreover have "distinct (map (test_oid tidx) [1..<Suc (length tids)])"
    by (auto simp: distinct_map inj_on_def dest: test_oid_inj)
  ultimately show ?thesis by simp
qed

lemma mark_all_reviewed_objects:
  assumes "tagged new" and "tests_of new = tids" and "numbered tidx tids"
  shows "mark_all tids ts new = map (reviewed ts) new"
proof -
  have d: "distinct tids"
    using assms(3) by (rule numbered_distinct)
  have h: "\<forall>tid\<in>set tids. hd tid = CHR ''t''"
  proof
    fix tid
    assume "tid \<in> set tids"
    moreover have "tids = map (test_oid tidx) [1..<Suc (length tids)]"
      using assms(3) by (simp add: numbered_def)
    ultimately have "tid \<in> set (map (test_oid tidx) [1..<Suc (length tids)])"
      by simp
    then show "hd tid = CHR ''t''"
      by auto
  qed
  have t: "\<forall>ob\<in>set new. (o_id ob \<in> set tids) = (o_type ob = ''Test'')"
  proof
    fix ob
    assume ob: "ob \<in> set new"
    with assms(1) have g: "(o_type ob = ''Test'') = (hd (o_id ob) = CHR ''t'')"
      by (simp add: tagged_def list_all_iff)
    show "(o_id ob \<in> set tids) = (o_type ob = ''Test'')"
    proof
      assume "o_id ob \<in> set tids"
      with h g show "o_type ob = ''Test''" by simp
    next
      assume "o_type ob = ''Test''"
      with ob assms(2) show "o_id ob \<in> set tids"
        by (auto simp: tests_of_def)
    qed
  qed
  have "mark_all tids ts new =
     map (\<lambda>ob. if o_id ob \<in> set tids
                then ob\<lparr>o_attributes := o_attributes ob @
                       [\<lparr>a_name = ''result_state'', a_time = ts, a_value = VStr ''Reviewed''\<rparr>]\<rparr>
                else ob) new"
    using d t assms(2)
    by (intro mark_all_map [where ty = "''Test''"]) (auto simp: tests_of_def)
  also have "\<dots> = map (reviewed ts) new"
    using t by (simp add: reviewed_def)
  finally show ?thesis .
qed


lemma followup_objects:
  assumes "\<forall>a\<in>set pre. known a" and "0 \<le> event_step_std_minutes b"
    and "type_prefix b = default_type_prefix"
  shows "objects (snd (add_single_trace tidx (pre @ [''FollowUpVisit'']) b)) =
     objects b @ map (reviewed (iso (trace_start b tidx + int (length pre) * trace_step b)))
                  (drop (length (objects b)) (objects (snd (add_single_trace tidx pre b))))"
proof -
  let ?t = "trace_start b tidx + int (length pre) * trace_step b"
  define c0 where "c0 = fst (trace_init b tidx)"
  define b0 where "b0 = snd (trace_init b tidx)"
  have "ids_inv (objects b) c0 b0"
    unfolding c0_def b0_def using assms(3) by (rule trace_init_ids)
  from replay_ids [OF assms(1) this, of "trace_start b tidx" "trace_step b"] obtain c1 bp where
    r: "replay pre c0 (trace_start b tidx) (trace_step b) b0 = (Inr c1, bp)"
    and i: "ids_inv (objects b) c1 bp"
    by blast
  from i obtain new where
    n: "objects bp = objects b @ new" "tagged new" "tests_of new = test_ids c1"
      "numbered (trace_index c1) (test_ids c1)"
    unfolding ids_inv_def by blast
  have sub: "set (test_ids c1) \<subseteq> o_id ` set new"
    using tests_of_ids [of new] n(3) by simp
  then have "set (test_ids c1) \<subseteq> o_id ` set (objects bp)"
    using n(1) by auto
  from followup_effect [OF this, of ?t] obtain b2 where
    f: "emit_event_followup c1 ?t bp = (Inr c1, b2)"
      "objects b2 = mark_all (test_ids c1) (iso ?t) (objects bp)"
    by blast
  have "replay (pre @ [''FollowUpVisit'']) c0 (trace_start b tidx) (trace_step b) b0 = (Inr c1, b2)"
    using r f(1) by (simp add: replay_append dispatch_def)
  then have a: "objects (snd (add_single_trace tidx (pre @ [''FollowUpVisit'']) b)) = objects b2"
    by (simp add: add_single_trace_eq [OF assms(2)] c0_def b0_def)
  have p: "objects (snd (add_single_trace tidx pre b)) = objects bp"
    using r by (simp add: add_single_trace_eq [OF assms(2)] c0_def b0_def)
  have "objects b2 = objects b @ mark_all (test_ids c1) (iso ?t) new"
    using f(2) n(1) sub by (simp add: mark_all_append)
  also have "mark_all (test_ids c1) (iso ?t) new = map (reviewed (iso ?t)) new"
    using n(2,3,4) by (rule mark_all_reviewed_objects)
  finally show ?thesis
    using a p n(1) by simp
qed

text \<open>
  C6: take a trace up to and including a FollowUpVisit, the labels before it known and
  the configured deviation not negative.
  The Tests that the trace has created are as many as its ImagingTest and LabTest
  activities; when the FollowUpVisit has been handled, the current \<open>result_state\<close> of
  each of them is \<open>Reviewed\<close>, and the event of the FollowUpVisit, the last one, carries
  exactly one \<open>reviewed_test\<close> relationship to each of them, in the order of creation.
  With the type prefixes that the constructor sets, the objects after the FollowUpVisit
  are the objects of the trace without it, where each Test that the trace has created
  has got one more \<open>result_state\<close> entry, \<open>Reviewed\<close> at the time of the FollowUpVisit, behind
  its other entries; no other object has changed.
\<close>

theorem C6_followup_reviews_tests:
  assumes "\<forall>a\<in>set pre. known a" and "0 \<le> event_step_std_minutes b"
  shows "fst (add_single_trace tidx (pre @ [''FollowUpVisit'']) b) = Inr ()
     \<and> length (created_of ''Test'' b (snd (add_single_trace tidx (pre @ [''FollowUpVisit'']) b))) =
         length (filter (\<lambda>a. a = ''ImagingTest'' \<or> a = ''LabTest'') pre)
     \<and> list_all (\<lambda>tid. get_obj_attr (snd (add_single_trace tidx (pre @ [''FollowUpVisit'']) b))
                        tid ''result_state'' = VStr ''Reviewed'')
         (created_of ''Test'' b (snd (add_single_trace tidx (pre @ [''FollowUpVisit'']) b)))
     \<and> e_type (last (events (snd (add_single_trace tidx (pre @ [''FollowUpVisit'']) b)))) =
         ''FollowUpVisit''
     \<and> map objectId (filter (\<lambda>r. qualifier r = ''reviewed_test'')
           (e_relationships
              (last (events (snd (add_single_trace tidx (pre @ [''FollowUpVisit'']) b)))))) =
         created_of ''Test'' b (snd (add_single_trace tidx (pre @ [''FollowUpVisit'']) b))
     \<and> (type_prefix b = default_type_prefix \<longrightarrow>
          objects (snd (add_single_trace tidx (pre @ [''FollowUpVisit'']) b)) =
            objects b @
            map (reviewed (iso (trace_start b tidx + int (length pre) * trace_step b)))
              (drop (length (objects b)) (objects (snd (add_single_trace tidx pre b)))))"
proof -
  let ?t = "trace_start b tidx + int (length pre) * trace_step b"
  define c0 where "c0 = fst (trace_init b tidx)"
  define b0 where "b0 = snd (trace_init b tidx)"
  have ok: "ctx_ok c0 b0"
    unfolding c0_def b0_def by (rule trace_init_facts)
  have i: "skel (objects b0) = skel (objects b) @ [(patient_id c0, ''Patient''), (visit_id c0, ''Encounter'')]"
    "test_ids c0 = []"
    unfolding c0_def b0_def by (rule trace_init_facts)+
  from replay_summary [OF assms(1) ok, of "trace_start b tidx" "trace_step b"] obtain c1 bp where
    r: "replay pre c0 (trace_start b tidx) (trace_step b) b0 = (Inr c1, bp)"
    and p: "replay_post pre c0 (trace_start b tidx) (trace_step b) b0 c1 bp"
    by blast
  from p obtain cr where
    cr: "skel (objects bp) = skel (objects b0) @ cr"
      "test_ids c1 = test_ids c0 @ of_type ''Test'' cr"
      "length (of_type ''Test'' cr) = length (filter (\<lambda>a. a = ''ImagingTest'' \<or> a = ''LabTest'') pre)"
    and ok1: "ctx_ok c1 bp"
    unfolding replay_post_def by blast
  from ok1 have sub: "set (test_ids c1) \<subseteq> o_id ` set (objects bp)"
    by (simp add: ctx_ok_def)
  from followup_effect [OF sub, of ?t] obtain e b2 where
    f: "emit_event_followup c1 ?t bp = (Inr c1, b2)"
      "objects b2 = mark_all (test_ids c1) (iso ?t) (objects bp)"
      "events b2 = events bp @ [e]" "e_type e = ''FollowUpVisit''"
      "e_relationships e =
         [\<lparr>objectId = patient_id c1, qualifier = ''subject''\<rparr>,
          \<lparr>objectId = visit_id c1, qualifier = ''encounter''\<rparr>]
         @ map (\<lambda>tid. \<lparr>objectId = tid, qualifier = ''reviewed_test''\<rparr>) (test_ids c1)"
    by blast
  have "replay (pre @ [''FollowUpVisit'']) c0 (trace_start b tidx) (trace_step b) b0 = (Inr c1, b2)"
    using r f(1) by (simp add: replay_append dispatch_def)
  then have a: "add_single_trace tidx (pre @ [''FollowUpVisit'']) b = (Inr (), emit_o2o c1 b2)"
    by (simp add: add_single_trace_eq [OF assms(2)] c0_def b0_def)
  have sk: "skel (objects b2) = skel (objects b0) @ cr"
    using f(2) cr(1) by simp
  have tests: "created_of ''Test'' b (snd (add_single_trace tidx (pre @ [''FollowUpVisit'']) b)) =
      test_ids c1"
    using a created_in_trace [OF sk i(1), of "''Test''" c1] cr(2) i(2) by simp
  have cur: "list_all (\<lambda>tid. get_obj_attr (emit_o2o c1 b2) tid ''result_state'' = VStr ''Reviewed'')
      (test_ids c1)"
    using sub by (simp add: list_all_iff get_obj_attr_def f(2) mark_all_reviewed)
  have lst: "last (events (emit_o2o c1 b2)) = e"
    using f(3) by simp
  have obs: "type_prefix b = default_type_prefix \<longrightarrow>
      objects (snd (add_single_trace tidx (pre @ [''FollowUpVisit'']) b)) =
        objects b @
        map (reviewed (iso ?t))
          (drop (length (objects b)) (objects (snd (add_single_trace tidx pre b))))"
    using followup_objects [OF assms] by blast
  have "fst (add_single_trace tidx (pre @ [''FollowUpVisit'']) b) = Inr ()
     \<and> length (created_of ''Test'' b (snd (add_single_trace tidx (pre @ [''FollowUpVisit'']) b))) =
         length (filter (\<lambda>a. a = ''ImagingTest'' \<or> a = ''LabTest'') pre)
     \<and> list_all (\<lambda>tid. get_obj_attr (snd (add_single_trace tidx (pre @ [''FollowUpVisit'']) b))
                        tid ''result_state'' = VStr ''Reviewed'')
         (created_of ''Test'' b (snd (add_single_trace tidx (pre @ [''FollowUpVisit'']) b)))
     \<and> e_type (last (events (snd (add_single_trace tidx (pre @ [''FollowUpVisit'']) b)))) =
         ''FollowUpVisit''
     \<and> map objectId (filter (\<lambda>r. qualifier r = ''reviewed_test'')
           (e_relationships
              (last (events (snd (add_single_trace tidx (pre @ [''FollowUpVisit'']) b)))))) =
         created_of ''Test'' b (snd (add_single_trace tidx (pre @ [''FollowUpVisit'']) b))"
    unfolding tests using a cur lst f(4,5) cr(2,3) i(2)
    by (simp add: comp_def)
  with obs show ?thesis
    by blast
qed

theorem C6_followup_reviews_tests_witness:
  "known ''ImagingTest'' \<and> known ''LabTest'' \<and> 0 \<le> event_step_std_minutes example_builder
   \<and> fst (add_single_trace 1 ([''ImagingTest'', ''LabTest''] @ [''FollowUpVisit''])
         example_builder) = Inr ()
   \<and> length (created_of ''Test'' example_builder
        (snd (add_single_trace 1 ([''ImagingTest'', ''LabTest''] @ [''FollowUpVisit''])
           example_builder))) = 2
   \<and> type_prefix example_builder = default_type_prefix
   \<and> objects (snd (add_single_trace 1 ([''ImagingTest'', ''LabTest''] @ [''FollowUpVisit''])
         example_builder)) =
       objects example_builder @
       map (reviewed (iso (trace_start example_builder 1
                           + int (length [''ImagingTest'', ''LabTest'']) * trace_step example_builder)))
         (drop (length (objects example_builder))
            (objects (snd (add_single_trace 1 [''ImagingTest'', ''LabTest''] example_builder))))"
proof -
  have h: "\<forall>a\<in>set [''ImagingTest'', ''LabTest'']. known a"
    by (simp add: known_iff)
  have s: "0 \<le> event_step_std_minutes example_builder"
    by (simp add: example_builder_def)
  note th = C6_followup_reviews_tests [OF h s, of 1]
  from th have a: "fst (add_single_trace 1 ([''ImagingTest'', ''LabTest''] @ [''FollowUpVisit''])
         example_builder) = Inr ()"
    by (rule conjunct1)
  from th have "length (created_of ''Test'' example_builder
        (snd (add_single_trace 1 ([''ImagingTest'', ''LabTest''] @ [''FollowUpVisit''])
           example_builder))) =
      length (filter (\<lambda>a. a = ''ImagingTest'' \<or> a = ''LabTest'') [''ImagingTest'', ''LabTest''])"
    by (elim conjE)
  then have l: "length (created_of ''Test'' example_builder
        (snd (add_single_trace 1 ([''ImagingTest'', ''LabTest''] @ [''FollowUpVisit''])
           example_builder))) = 2"
    by simp
  have p: "type_prefix example_builder = default_type_prefix"
    by (simp add: example_builder_def)
  from th have "type_prefix example_builder = default_type_prefix \<longrightarrow>
      objects (snd (add_single_trace 1 ([''ImagingTest'', ''LabTest''] @ [''FollowUpVisit''])
         example_builder)) =
       objects example_builder @
       map (reviewed (iso (trace_start example_builder 1
                           + int (length [''ImagingTest'', ''LabTest'']) * trace_step example_builder)))
         (drop (length (objects example_builder))
            (objects (snd (add_single_trace 1 [''ImagingTest'', ''LabTest''] example_builder))))"
    by (elim conjE)
  with p have o: "objects (snd (add_single_trace 1 ([''ImagingTest'', ''LabTest''] @ [''FollowUpVisit''])
         example_builder)) =
       objects example_builder @
       map (reviewed (iso (trace_start example_builder 1
                           + int (length [''ImagingTest'', ''LabTest'']) * trace_step example_builder)))
         (drop (length (objects example_builder))
            (objects (snd (add_single_trace 1 [''ImagingTest'', ''LabTest''] example_builder))))"
    by (rule rev_mp)
  have k: "known ''ImagingTest''" "known ''LabTest''"
    by (simp_all add: known_iff)
  from k s a l p o show ?thesis
    by (intro conjI)
qed

end
